theory Spec2Isabelle
  imports Main "HOL-Library.Word"
begin

section \<open>Go values\<close>

text \<open>
  The counters of the stats documents are Go \<open>int64\<close> values and the staking amounts are
  \<open>uint64\<close> values. Both are 64-bit words: \<open>+\<close> and \<open>-\<close> wrap around as in Go, \<open>sint\<close>
  reads a counter as the signed number Go prints, \<open>unat\<close> reads an amount.
\<close>

type_synonym int64 = "64 word"
type_synonym uint64 = "64 word"

text \<open>The conversion \<open>int64(amount)\<close> keeps the 64 bits and reads them as signed.\<close>

definition int64_of_uint64 :: "uint64 \<Rightarrow> int64" where
  "int64_of_uint64 amount = amount"

text \<open>
  \<open>fmt.Sprint(i)\<close> and the verb \<open>%d\<close> on an integer: its decimal digits, with a minus
  sign for a negative number.
\<close>

definition digit :: "nat \<Rightarrow> char" where
  "digit d = ''0123456789'' ! (d mod 10)"

function decimal :: "nat \<Rightarrow> string" where
  "decimal n = (if n < 10 then [digit n] else decimal (n div 10) @ [digit (n mod 10)])"
  by pat_completeness auto
termination
  by (relation "measure (\<lambda>n. n)") auto

declare decimal.simps [simp del]

definition Sprint :: "int \<Rightarrow> string" where
  "Sprint i = (if i < 0 then CHR ''-'' # decimal (nat (- i)) else decimal (nat i))"

section \<open>Errors\<close>

text \<open>
  The errors a database method returns. \<open>NotFoundError\<close> is the struct of the db package
  with its two fields, and \<open>DuplicateKeyError\<close> and \<open>InvalidPaginationTokenError\<close> are
  the two other errors of that package that the services tell apart; \<open>InvalidIdFormat\<close> is the \<open>fmt.Errorf("invalid id format: %s", id)\<close>
  of \<open>extractFinalityProviderPkHexFromStatsId\<close>; \<open>DriverError\<close> stands for any error
  that the MongoDB driver itself reports (session, query, cursor, commit); \<open>RuntimePanic\<close>
  is a Go panic (\<open>rand.Intn\<close> on a bound that is not positive, a slice out of bounds).
\<close>

datatype failure =
    NotFoundError (Key: string) (Message: string)
  | DuplicateKeyError string string
  | InvalidPaginationTokenError string
  | InvalidIdFormat string
  | DriverError
  | RuntimePanic

text \<open>
  The predicates of the db package that the services use to classify an error of the
  store. They are declared in a file of the package that is not among the sources at
  hand; each holds of the errors of the type its name says.
\<close>

definition IsNotFoundError :: "failure \<Rightarrow> bool" where
  "IsNotFoundError err = (case err of NotFoundError _ _ \<Rightarrow> True | _ \<Rightarrow> False)"

definition IsDuplicateKeyError :: "failure \<Rightarrow> bool" where
  "IsDuplicateKeyError err = (case err of DuplicateKeyError _ _ \<Rightarrow> True | _ \<Rightarrow> False)"

definition IsInvalidPaginationTokenError :: "failure \<Rightarrow> bool" where
  "IsInvalidPaginationTokenError err =
     (case err of InvalidPaginationTokenError _ \<Rightarrow> True | _ \<Rightarrow> False)"

section \<open>Documents and collections\<close>

text \<open>
  \<open>model.OverallStatsDocument\<close> and \<open>model.FinalityProviderStatsDocument\<close> carry the same
  five fields in the code that reads and writes them; one record serves both. A field
  that a stored document lacks is decoded by Go as zero.
\<close>

record StatsDocument =
  Id_stats :: string
  ActiveTvl :: int64
  TotalTvl :: int64
  ActiveDelegations :: int64
  TotalDelegations :: int64

type_synonym OverallStatsDocument = StatsDocument
type_synonym FinalityProviderStatsDocument = StatsDocument

text \<open>
  \<open>model.StatsLockDocument\<close>: the id and one boolean per stats family, in the order of
  the arguments of \<open>model.NewStatsLockDocument\<close>. The code names two of the stored fields,
  \<open>overall_stats\<close> and \<open>finality_provider_stats\<close>; the third family's field is
  \<open>staker_stats\<close> in the model package.
\<close>

record StatsLockDocument =
  Id_lock :: string
  OverallStats :: bool
  StakerStats :: bool
  FinalityProviderStats :: bool

definition NewStatsLockDocument :: "string \<Rightarrow> bool \<Rightarrow> bool \<Rightarrow> bool \<Rightarrow> StatsLockDocument" where
  "NewStatsLockDocument i overallStats stakerStats finalityProviderStats =
     \<lparr>Id_lock = i, OverallStats = overallStats, StakerStats = stakerStats,
      FinalityProviderStats = finalityProviderStats\<rparr>"

text \<open>Reading and writing a stored boolean by the name of its field.\<close>

definition lockField :: "string \<Rightarrow> StatsLockDocument \<Rightarrow> bool option" where
  "lockField fieldName d =
     (if fieldName = ''overall_stats'' then Some (OverallStats d)
      else if fieldName = ''staker_stats'' then Some (StakerStats d)
      else if fieldName = ''finality_provider_stats'' then Some (FinalityProviderStats d)
      else None)"

definition setLockField :: "string \<Rightarrow> bool \<Rightarrow> StatsLockDocument \<Rightarrow> StatsLockDocument" where
  "setLockField fieldName b d =
     (if fieldName = ''overall_stats'' then d\<lparr>OverallStats := b\<rparr>
      else if fieldName = ''staker_stats'' then d\<lparr>StakerStats := b\<rparr>
      else if fieldName = ''finality_provider_stats'' then d\<lparr>FinalityProviderStats := b\<rparr>
      else d)"

text \<open>
  A collection is the list of its documents in their natural order; the database is the
  three collections the stats code touches. The configuration holds the two values the
  code reads, after their conversion \<open>int(db.cfg.\<dots>)\<close>.
\<close>

record Database =
  StatsLockCollection :: "StatsLockDocument list"
  OverallStatsCollection :: "StatsDocument list"
  FinalityProviderStatsCollection :: "StatsDocument list"

record Config =
  LogicalShardCount :: int
  DbBatchSizeLimit :: int

section \<open>The driver's operations\<close>

text \<open>
  An update document \<open>{"$inc": {field: delta, \<dots>}}\<close> is the list of its pairs; a counter it
  does not name is left alone.
\<close>

type_synonym inc_update = "(string \<times> int64) list"

definition incOf :: "inc_update \<Rightarrow> string \<Rightarrow> int64" where
  "incOf u fieldName = (case map_of u fieldName of None \<Rightarrow> 0 | Some delta \<Rightarrow> delta)"

definition applyInc :: "inc_update \<Rightarrow> StatsDocument \<Rightarrow> StatsDocument" where
  "applyInc u d =
     d\<lparr>ActiveTvl := ActiveTvl d + incOf u ''active_tvl'',
       TotalTvl := TotalTvl d + incOf u ''total_tvl'',
       ActiveDelegations := ActiveDelegations d + incOf u ''active_delegations'',
       TotalDelegations := TotalDelegations d + incOf u ''total_delegations''\<rparr>"

definition emptyStats :: "string \<Rightarrow> StatsDocument" where
  "emptyStats i =
     \<lparr>Id_stats = i, ActiveTvl = 0, TotalTvl = 0, ActiveDelegations = 0, TotalDelegations = 0\<rparr>"

text \<open>
  \<open>UpdateOne(filter {_id: i}, {"$inc": \<dots>}, upsert)\<close>: the first document with the id is
  incremented; when there is none, a new document is inserted from the filter and
  the increments.
\<close>

fun UpdateOne_upsert :: "string \<Rightarrow> inc_update \<Rightarrow> StatsDocument list \<Rightarrow> StatsDocument list" where
  "UpdateOne_upsert i u [] = [applyInc u (emptyStats i)]"
| "UpdateOne_upsert i u (d # ds) =
     (if Id_stats d = i then applyInc u d # ds else d # UpdateOne_upsert i u ds)"

text \<open>
  \<open>UpdateOne(filter {_id: i, fieldName: false}, {"$set": {fieldName: true}})\<close> on the lock
  collection: the first matching document gets the field set; the second component is
  the driver's \<open>MatchedCount\<close>.
\<close>

fun UpdateOne_lock ::
  "string \<Rightarrow> string \<Rightarrow> StatsLockDocument list \<Rightarrow> StatsLockDocument list \<times> nat" where
  "UpdateOne_lock i fieldName [] = ([], 0)"
| "UpdateOne_lock i fieldName (d # ds) =
     (if Id_lock d = i \<and> lockField fieldName d = Some False
      then (setLockField fieldName True d # ds, 1)
      else (d # fst (UpdateOne_lock i fieldName ds), snd (UpdateOne_lock i fieldName ds)))"

text \<open>\<open>Find(filter {_id: {"$in": ids}})\<close> followed by \<open>cursor.All\<close>.\<close>

definition Find_in :: "string list \<Rightarrow> StatsDocument list \<Rightarrow> StatsDocument list" where
  "Find_in ids coll = filter (\<lambda>d. Id_stats d \<in> set ids) coll"

text \<open>
  \<open>session.WithTransaction\<close>: the work runs on the database; when it returns an error or
  panics, or when the commit fails, everything it wrote is rolled back.
\<close>

definition WithTransaction ::
  "bool \<Rightarrow> Database \<Rightarrow> (Database \<Rightarrow> (failure + unit) \<times> Database) \<Rightarrow> (failure + unit) \<times> Database" where
  "WithTransaction commitErr db work =
     (case work db of
        (Inl e, _) \<Rightarrow> (Inl e, db)
      | (Inr x, db') \<Rightarrow> if commitErr then (Inl DriverError, db) else (Inr x, db'))"

text \<open>
  What one call of an updating method meets outside the program: whether the driver
  fails at each of its calls, and the number \<open>math/rand\<close> draws.
\<close>

record Env =
  startSessionErr :: bool
  lockUpdateErr :: bool
  randDraw :: nat
  statsUpdateErr :: bool
  commitErr :: bool

text \<open>\<open>rand.Intn(n)\<close> panics when \<open>n \<le> 0\<close> and returns a number in \<open>[0, n)\<close> otherwise.\<close>

definition Intn :: "int \<Rightarrow> nat \<Rightarrow> failure + int" where
  "Intn n draw = (if n \<le> 0 then Inl RuntimePanic else Inr (int draw mod n))"

section \<open>The stats methods of the database\<close>

definition constructStatsLockId :: "string \<Rightarrow> string \<Rightarrow> string" where
  "constructStatsLockId stakingTxHashHex state = stakingTxHashHex @ '':'' @ state"

text \<open>
  \<open>types.DelegationState\<close> is a string type; \<open>ToString\<close> returns the string. The code here
  uses the two states \<open>types.Active\<close> and \<open>types.Unbonded\<close>.
\<close>

type_synonym DelegationState = string

definition Active :: DelegationState where "Active = ''active''"
definition Unbonded :: DelegationState where "Unbonded = ''unbonded''"

definition ToString :: "DelegationState \<Rightarrow> string" where
  "ToString s = s"

definition GetOrCreateStatsLock ::
  "bool \<Rightarrow> Database \<Rightarrow> string \<Rightarrow> string \<Rightarrow> (failure + StatsLockDocument) \<times> Database" where
  "GetOrCreateStatsLock driverErr db stakingTxHashHex txType =
     (let i = constructStatsLockId stakingTxHashHex txType in
      if driverErr then (Inl DriverError, db)
      else (case find (\<lambda>d. Id_lock d = i) (StatsLockCollection db) of
              Some d \<Rightarrow> (Inr d, db)
            | None \<Rightarrow>
                (Inr (NewStatsLockDocument i False False False),
                 db\<lparr>StatsLockCollection :=
                      StatsLockCollection db @ [NewStatsLockDocument i False False False]\<rparr>)))"

definition updateStatsLockByFieldName ::
  "bool \<Rightarrow> Database \<Rightarrow> string \<Rightarrow> string \<Rightarrow> string \<Rightarrow> (failure + unit) \<times> Database" where
  "updateStatsLockByFieldName driverErr db stakingTxHashHex state fieldName =
     (if driverErr then (Inl DriverError, db)
      else (let r = UpdateOne_lock (constructStatsLockId stakingTxHashHex state) fieldName
                      (StatsLockCollection db)
            in if snd r = 0
               then (Inl (NotFoundError stakingTxHashHex
                            ''document already processed or does not exist''),
                     db\<lparr>StatsLockCollection := fst r\<rparr>)
               else (Inr (), db\<lparr>StatsLockCollection := fst r\<rparr>)))"

definition generateOverallStatsId :: "Config \<Rightarrow> nat \<Rightarrow> failure + string" where
  "generateOverallStatsId cfg draw =
     (case Intn (LogicalShardCount cfg) draw of
        Inl e \<Rightarrow> Inl e
      | Inr n \<Rightarrow> Inr (Sprint n))"

definition updateOverallStats ::
  "Config \<Rightarrow> Env \<Rightarrow> Database \<Rightarrow> string \<Rightarrow> string \<Rightarrow> inc_update \<Rightarrow> (failure + unit) \<times> Database" where
  "updateOverallStats cfg env db state stakingTxHashHex upsertUpdate =
     (if startSessionErr env then (Inl DriverError, db)
      else WithTransaction (commitErr env) db (\<lambda>s.
        case updateStatsLockByFieldName (lockUpdateErr env) s stakingTxHashHex state
               ''overall_stats'' of
          (Inl e, s') \<Rightarrow> (Inl e, s')
        | (Inr _, s') \<Rightarrow>
            (case generateOverallStatsId cfg (randDraw env) of
               Inl e \<Rightarrow> (Inl e, s')
             | Inr shardId \<Rightarrow>
                 if statsUpdateErr env then (Inl DriverError, s')
                 else (Inr (),
                       s'\<lparr>OverallStatsCollection :=
                            UpdateOne_upsert shardId upsertUpdate (OverallStatsCollection s')\<rparr>))))"

definition IncrementOverallStats ::
  "Config \<Rightarrow> Env \<Rightarrow> Database \<Rightarrow> string \<Rightarrow> uint64 \<Rightarrow> (failure + unit) \<times> Database" where
  "IncrementOverallStats cfg env db stakingTxHashHex amount =
     updateOverallStats cfg env db (ToString Active) stakingTxHashHex
       [(''active_tvl'', int64_of_uint64 amount),
        (''total_tvl'', int64_of_uint64 amount),
        (''active_delegations'', 1),
        (''total_delegations'', 1)]"

definition SubtractOverallStats ::
  "Config \<Rightarrow> Env \<Rightarrow> Database \<Rightarrow> string \<Rightarrow> uint64 \<Rightarrow> (failure + unit) \<times> Database" where
  "SubtractOverallStats cfg env db stakingTxHashHex amount =
     updateOverallStats cfg env db (ToString Unbonded) stakingTxHashHex
       [(''active_tvl'', - int64_of_uint64 amount),
        (''active_delegations'', - 1)]"

text \<open>
  \<open>GetOverallStats\<close>: the ids of all the shards, one query, and the sum of what it
  returns. The result's id stays the empty string. The two flags say whether \<open>Find\<close> and
  \<open>cursor.All\<close> fail.
\<close>

definition allShardIds :: "Config \<Rightarrow> string list" where
  "allShardIds cfg = map (\<lambda>i. Sprint (int i)) [0 ..< nat (LogicalShardCount cfg)]"

definition addStats :: "StatsDocument \<Rightarrow> StatsDocument \<Rightarrow> StatsDocument" where
  "addStats result stats =
     result\<lparr>ActiveTvl := ActiveTvl result + ActiveTvl stats,
            TotalTvl := TotalTvl result + TotalTvl stats,
            ActiveDelegations := ActiveDelegations result + ActiveDelegations stats,
            TotalDelegations := TotalDelegations result + TotalDelegations stats\<rparr>"

definition GetOverallStats ::
  "Config \<Rightarrow> bool \<Rightarrow> bool \<Rightarrow> Database \<Rightarrow> failure + OverallStatsDocument" where
  "GetOverallStats cfg findErr cursorErr db =
     (if findErr then Inl DriverError
      else if cursorErr then Inl DriverError
      else Inr (foldl addStats (emptyStats [])
                  (Find_in (allShardIds cfg) (OverallStatsCollection db))))"

section \<open>The stats of the finality providers\<close>

definition generateFinalityProviderStatsId :: "Config \<Rightarrow> nat \<Rightarrow> string \<Rightarrow> failure + string" where
  "generateFinalityProviderStatsId cfg draw finalityProviderPkHex =
     (case Intn (LogicalShardCount cfg) draw of
        Inl e \<Rightarrow> Inl e
      | Inr randomShardNum \<Rightarrow> Inr (finalityProviderPkHex @ '':'' @ Sprint randomShardNum))"

text \<open>
  \<open>strings.Split(s, sep)\<close> for a separator of one character: the pieces of \<open>s\<close> between
  the separators, one more than there are separators; the empty string gives one
  empty piece.
\<close>

fun Split :: "string \<Rightarrow> char \<Rightarrow> string list" where
  "Split [] sep = [[]]"
| "Split (c # cs) sep =
     (if c = sep then [] # Split cs sep
      else (c # hd (Split cs sep)) # tl (Split cs sep))"

definition extractFinalityProviderPkHexFromStatsId :: "string \<Rightarrow> failure + string" where
  "extractFinalityProviderPkHexFromStatsId i =
     (let parts = Split i CHR '':''
      in if length parts \<noteq> 2 then Inl (InvalidIdFormat i) else Inr (parts ! 0))"

definition getAllShardedFinalityProviderId :: "Config \<Rightarrow> string list \<Rightarrow> string list" where
  "getAllShardedFinalityProviderId cfg finalityProviderPkHex =
     concat (map (\<lambda>fpPkHex.
                map (\<lambda>i. fpPkHex @ '':'' @ Sprint (int i)) [0 ..< nat (LogicalShardCount cfg)])
             finalityProviderPkHex)"

definition updateFinalityProviderStats ::
  "Config \<Rightarrow> Env \<Rightarrow> Database \<Rightarrow> string \<Rightarrow> string \<Rightarrow> string \<Rightarrow> inc_update \<Rightarrow>
   (failure + unit) \<times> Database" where
  "updateFinalityProviderStats cfg env db state stakingTxHashHex fpPkHex upsertUpdate =
     (if startSessionErr env then (Inl DriverError, db)
      else WithTransaction (commitErr env) db (\<lambda>s.
        case updateStatsLockByFieldName (lockUpdateErr env) s stakingTxHashHex state
               ''finality_provider_stats'' of
          (Inl e, s') \<Rightarrow> (Inl e, s')
        | (Inr _, s') \<Rightarrow>
            (case generateFinalityProviderStatsId cfg (randDraw env) fpPkHex of
               Inl e \<Rightarrow> (Inl e, s')
             | Inr shardId \<Rightarrow>
                 if statsUpdateErr env then (Inl DriverError, s')
                 else (Inr (),
                       s'\<lparr>FinalityProviderStatsCollection :=
                            UpdateOne_upsert shardId upsertUpdate
                              (FinalityProviderStatsCollection s')\<rparr>))))"

definition IncrementFinalityProviderStats ::
  "Config \<Rightarrow> Env \<Rightarrow> Database \<Rightarrow> string \<Rightarrow> string \<Rightarrow> uint64 \<Rightarrow> (failure + unit) \<times> Database" where
  "IncrementFinalityProviderStats cfg env db stakingTxHashHex fpPkHex amount =
     updateFinalityProviderStats cfg env db (ToString Active) stakingTxHashHex fpPkHex
       [(''active_tvl'', int64_of_uint64 amount),
        (''total_tvl'', int64_of_uint64 amount),
        (''active_delegations'', 1),
        (''total_delegations'', 1)]"

definition SubtractFinalityProviderStats ::
  "Config \<Rightarrow> Env \<Rightarrow> Database \<Rightarrow> string \<Rightarrow> string \<Rightarrow> uint64 \<Rightarrow> (failure + unit) \<times> Database" where
  "SubtractFinalityProviderStats cfg env db stakingTxHashHex fpPkHex amount =
     updateFinalityProviderStats cfg env db (ToString Unbonded) stakingTxHashHex fpPkHex
       [(''active_tvl'', - int64_of_uint64 amount),
        (''active_delegations'', - 1)]"

text \<open>
  The inner loop of \<open>FindFinalityProviderStatsByPkHex\<close>: every document the query
  returned is added to the entry of the provider its id names; the first document of a
  provider makes the entry, with the four counters and no id. An id that does not
  split into two parts ends the method with an error.
\<close>

definition firstShard :: "StatsDocument \<Rightarrow> StatsDocument" where
  "firstShard fp =
     \<lparr>Id_stats = [], ActiveTvl = ActiveTvl fp, TotalTvl = TotalTvl fp,
      ActiveDelegations = ActiveDelegations fp, TotalDelegations = TotalDelegations fp\<rparr>"

fun sumShards ::
  "(string \<rightharpoonup> StatsDocument) \<Rightarrow> StatsDocument list \<Rightarrow> failure + (string \<rightharpoonup> StatsDocument)" where
  "sumShards finalityProvidersMap [] = Inr finalityProvidersMap"
| "sumShards finalityProvidersMap (fp # fps) =
     (case extractFinalityProviderPkHexFromStatsId (Id_stats fp) of
        Inl e \<Rightarrow> Inl e
      | Inr fpPkHex \<Rightarrow>
          (case finalityProvidersMap fpPkHex of
             Some existingFp \<Rightarrow>
               sumShards (finalityProvidersMap(fpPkHex \<mapsto> addStats existingFp fp)) fps
           | None \<Rightarrow>
               sumShards (finalityProvidersMap(fpPkHex \<mapsto> firstShard fp)) fps))"

text \<open>
  The outer loop, from the index \<open>i\<close> on. The two functions say whether \<open>Find\<close> and
  \<open>cursor.All\<close> fail for the batch that starts at an index. The slice \<open>pkHex[i:end]\<close>
  panics when \<open>end < i\<close> (a negative batch size); with a batch size of zero the index
  never moves and the loop does not end, which is the value \<open>None\<close>.
\<close>

record ReadEnv =
  findErr :: "int \<Rightarrow> bool"
  cursorErr :: "int \<Rightarrow> bool"

partial_function (option) findBatches ::
  "Config \<Rightarrow> ReadEnv \<Rightarrow> StatsDocument list \<Rightarrow> string list \<Rightarrow> int \<Rightarrow>
   (string \<rightharpoonup> StatsDocument) \<Rightarrow> (failure + (string \<rightharpoonup> StatsDocument)) option" where
  "findBatches cfg env coll pkHex i finalityProvidersMap =
     (if i < int (length pkHex) then
        (let batchSize = DbBatchSizeLimit cfg;
             end = (if i + batchSize > int (length pkHex) then int (length pkHex)
                    else i + batchSize)
         in if end < i then Some (Inl RuntimePanic)
            else if findErr env i then Some (Inl DriverError)
            else if cursorErr env i then Some (Inl DriverError)
            else (case sumShards finalityProvidersMap
                         (Find_in (getAllShardedFinalityProviderId cfg
                                     (take (nat (end - i)) (drop (nat i) pkHex))) coll) of
                    Inl e \<Rightarrow> Some (Inl e)
                  | Inr m \<Rightarrow> findBatches cfg env coll pkHex (i + batchSize) m))
      else Some (Inr finalityProvidersMap))"

definition FindFinalityProviderStatsByPkHex ::
  "Config \<Rightarrow> ReadEnv \<Rightarrow> Database \<Rightarrow> string list \<Rightarrow>
   (failure + (string \<rightharpoonup> FinalityProviderStatsDocument)) option" where
  "FindFinalityProviderStatsByPkHex cfg env db pkHex =
     findBatches cfg env (FinalityProviderStatsCollection db) pkHex 0 Map.empty"

section \<open>Reading the ledger\<close>

text \<open>
  The document of one shard as Go decodes it: the first document with the id, or
  all counters zero when the shard has no document yet.
\<close>

definition shardDoc :: "string \<Rightarrow> StatsDocument list \<Rightarrow> StatsDocument" where
  "shardDoc i coll =
     (case find (\<lambda>d. Id_stats d = i) coll of None \<Rightarrow> emptyStats i | Some d \<Rightarrow> d)"

text \<open>The sum of one counter over the documents that a query for \<open>ids\<close> returns.\<close>

definition shardTotal :: "(StatsDocument \<Rightarrow> int64) \<Rightarrow> string list \<Rightarrow> StatsDocument list \<Rightarrow> int64" where
  "shardTotal field ids coll = sum_list (map field (Find_in ids coll))"

text \<open>
  A run of calls with the same amount: each call has its own staking transaction and
  meets its own environment (so its own random shard). The run stops at the first
  call that fails.
\<close>

fun IncrementOverallStats_each ::
  "Config \<Rightarrow> Database \<Rightarrow> uint64 \<Rightarrow> (Env \<times> string) list \<Rightarrow> (failure + unit) \<times> Database" where
  "IncrementOverallStats_each cfg db amount [] = (Inr (), db)"
| "IncrementOverallStats_each cfg db amount ((env, stakingTxHashHex) # calls) =
     (case IncrementOverallStats cfg env db stakingTxHashHex amount of
        (Inl e, db') \<Rightarrow> (Inl e, db')
      | (Inr _, db') \<Rightarrow> IncrementOverallStats_each cfg db' amount calls)"

fun SubtractOverallStats_each ::
  "Config \<Rightarrow> Database \<Rightarrow> uint64 \<Rightarrow> (Env \<times> string) list \<Rightarrow> (failure + unit) \<times> Database" where
  "SubtractOverallStats_each cfg db amount [] = (Inr (), db)"
| "SubtractOverallStats_each cfg db amount ((env, stakingTxHashHex) # calls) =
     (case SubtractOverallStats cfg env db stakingTxHashHex amount of
        (Inl e, db') \<Rightarrow> (Inl e, db')
      | (Inr _, db') \<Rightarrow> SubtractOverallStats_each cfg db' amount calls)"

section \<open>Reading the stats of the finality providers\<close>

text \<open>
  The shard documents of one provider that the collection stores, in their natural
  order: what a query for the ids \<open>pk:0\<close> to \<open>pk:(LogicalShardCount - 1)\<close> returns.
\<close>

definition providerDocs :: "Config \<Rightarrow> StatsDocument list \<Rightarrow> string \<Rightarrow> StatsDocument list" where
  "providerDocs cfg coll pk = Find_in (getAllShardedFinalityProviderId cfg [pk]) coll"

text \<open>
  The entry of one provider as the inner loop builds it from the provider's documents,
  starting from the entry the map holds already.
\<close>

fun sumDocs :: "StatsDocument option \<Rightarrow> StatsDocument list \<Rightarrow> StatsDocument option" where
  "sumDocs entry [] = entry"
| "sumDocs None (fp # fps) = sumDocs (Some (firstShard fp)) fps"
| "sumDocs (Some existingFp) (fp # fps) = sumDocs (Some (addStats existingFp fp)) fps"

text \<open>
  The sum the spec asks for: the four counters summed over the provider's shard keys,
  and no entry for a provider without a stored shard document.
\<close>

definition providerSum :: "Config \<Rightarrow> StatsDocument list \<Rightarrow> string \<Rightarrow> StatsDocument option" where
  "providerSum cfg coll pk =
     (let shards = providerDocs cfg coll pk
      in if shards = [] then None
         else Some \<lparr>Id_stats = [],
                    ActiveTvl = sum_list (map ActiveTvl shards),
                    TotalTvl = sum_list (map TotalTvl shards),
                    ActiveDelegations = sum_list (map ActiveDelegations shards),
                    TotalDelegations = sum_list (map TotalDelegations shards)\<rparr>)"

text \<open>A driver whose queries never fail.\<close>

definition quietRead :: ReadEnv where
  "quietRead = \<lparr>findErr = (\<lambda>i. False), cursorErr = (\<lambda>i. False)\<rparr>"

text \<open>The id of a document splits into a provider key and a shard number.\<close>

abbreviation splits :: "StatsDocument \<Rightarrow> bool" where
  "splits d \<equiv> (\<exists>k. extractFinalityProviderPkHexFromStatsId (Id_stats d) = Inr k)"

section \<open>Reading the locks\<close>

text \<open>
  The value of one lock field of the record with the id \<open>i\<close>: \<open>None\<close> when there is no
  such record (or no such field).
\<close>

definition lockValue :: "Database \<Rightarrow> string \<Rightarrow> string \<Rightarrow> bool option" where
  "lockValue db i fieldName =
     (case find (\<lambda>d. Id_lock d = i) (StatsLockCollection db) of
        None \<Rightarrow> None
      | Some d \<Rightarrow> lockField fieldName d)"

text \<open>
  One lock record against a later version of it: the same id, and every boolean that
  was true is still true. A lock collection against a later one: every record is still
  at its place, in a later version.
\<close>

definition lock_le :: "StatsLockDocument \<Rightarrow> StatsLockDocument \<Rightarrow> bool" where
  "lock_le d d' =
     (Id_lock d' = Id_lock d \<and>
      (OverallStats d \<longrightarrow> OverallStats d') \<and>
      (StakerStats d \<longrightarrow> StakerStats d') \<and>
      (FinalityProviderStats d \<longrightarrow> FinalityProviderStats d'))"

definition locks_grow :: "StatsLockDocument list \<Rightarrow> StatsLockDocument list \<Rightarrow> bool" where
  "locks_grow coll coll' =
     (length coll \<le> length coll' \<and> list_all2 lock_le coll (take (length coll) coll'))"

text \<open>Every method of the database that writes, as one operation with its arguments.\<close>

datatype Operation =
    OpGetOrCreateStatsLock bool string string
  | OpUpdateStatsLockByFieldName bool string string string
  | OpIncrementOverallStats Env string uint64
  | OpSubtractOverallStats Env string uint64
  | OpIncrementFinalityProviderStats Env string string uint64
  | OpSubtractFinalityProviderStats Env string string uint64

fun perform :: "Config \<Rightarrow> Database \<Rightarrow> Operation \<Rightarrow> Database" where
  "perform cfg db (OpGetOrCreateStatsLock driverErr h txType) =
     snd (GetOrCreateStatsLock driverErr db h txType)"
| "perform cfg db (OpUpdateStatsLockByFieldName driverErr h state fieldName) =
     snd (updateStatsLockByFieldName driverErr db h state fieldName)"
| "perform cfg db (OpIncrementOverallStats env h amount) =
     snd (IncrementOverallStats cfg env db h amount)"
| "perform cfg db (OpSubtractOverallStats env h amount) =
     snd (SubtractOverallStats cfg env db h amount)"
| "perform cfg db (OpIncrementFinalityProviderStats env h fpPkHex amount) =
     snd (IncrementFinalityProviderStats cfg env db h fpPkHex amount)"
| "perform cfg db (OpSubtractFinalityProviderStats env h fpPkHex amount) =
     snd (SubtractFinalityProviderStats cfg env db h fpPkHex amount)"

definition performAll :: "Config \<Rightarrow> Database \<Rightarrow> Operation list \<Rightarrow> Database" where
  "performAll cfg db ops = foldl (perform cfg) db ops"

section \<open>The delegation services\<close>

text \<open>
  \<open>model.DelegationDocument\<close> with the fields the services read. The staking transaction is
  always present; the unbonding transaction is a pointer that may be nil.
\<close>

record TimelockTransaction =
  TxHex :: string
  OutputIndex :: uint64
  StartTimestamp :: int64
  StartHeight :: uint64
  TimeLock :: uint64

record DelegationDocument =
  StakingTxHashHex :: string
  StakerPkHex :: string
  FinalityProviderPkHex :: string
  StakingValue :: uint64
  State :: DelegationState
  StakingTx :: TimelockTransaction
  UnbondingTx :: "TimelockTransaction option"
  IsOverflow :: bool

record TransactionPublic =
  TxHex_public :: string
  OutputIndex_public :: uint64
  StartTimestamp_public :: string
  StartHeight_public :: uint64
  TimeLock_public :: uint64

record DelegationPublic =
  StakingTxHashHex_public :: string
  StakerPkHex_public :: string
  FinalityProviderPkHex_public :: string
  State_public :: string
  StakingValue_public :: uint64
  StakingTx_public :: "TransactionPublic option"
  UnbondingTx_public :: "TransactionPublic option"
  IsOverflow_public :: bool

text \<open>
  \<open>FromDelegationDocument\<close>. Its first argument is \<open>utils.ParseTimestampToIsoFormat\<close>, which
  is declared outside the sources at hand.
\<close>

definition toTransactionPublic :: "(int64 \<Rightarrow> string) \<Rightarrow> TimelockTransaction \<Rightarrow> TransactionPublic" where
  "toTransactionPublic ParseTimestampToIsoFormat t =
     \<lparr>TxHex_public = TxHex t,
      OutputIndex_public = OutputIndex t,
      StartTimestamp_public = ParseTimestampToIsoFormat (StartTimestamp t),
      StartHeight_public = StartHeight t,
      TimeLock_public = TimeLock t\<rparr>"

definition FromDelegationDocument :: "(int64 \<Rightarrow> string) \<Rightarrow> DelegationDocument \<Rightarrow> DelegationPublic" where
  "FromDelegationDocument ParseTimestampToIsoFormat d =
     \<lparr>StakingTxHashHex_public = StakingTxHashHex d,
      StakerPkHex_public = StakerPkHex d,
      FinalityProviderPkHex_public = FinalityProviderPkHex d,
      State_public = ToString (State d),
      StakingValue_public = StakingValue d,
      StakingTx_public = Some (toTransactionPublic ParseTimestampToIsoFormat (StakingTx d)),
      UnbondingTx_public =
        (case UnbondingTx d of
           None \<Rightarrow> None
         | Some u \<Rightarrow>
             if TxHex u \<noteq> [] then Some (toTransactionPublic ParseTimestampToIsoFormat u)
             else None),
      IsOverflow_public = IsOverflow d\<rparr>"

text \<open>
  \<open>types.Error\<close> and its constructors, which the types package declares: an HTTP status,
  an error code, and the error it wraps or the message it was made from. The statuses
  are those of \<open>net/http\<close>.
\<close>

datatype ErrorCode = BadRequest | NotFound | InternalServiceError

datatype cause = Wrapped failure | Msg string

record Error =
  StatusCode :: int
  Code :: ErrorCode
  Err :: cause

definition StatusOK :: int where "StatusOK = 200"
definition StatusBadRequest :: int where "StatusBadRequest = 400"
definition StatusNotFound :: int where "StatusNotFound = 404"
definition StatusInternalServerError :: int where "StatusInternalServerError = 500"

definition NewError :: "int \<Rightarrow> ErrorCode \<Rightarrow> failure \<Rightarrow> Error" where
  "NewError statusCode errorCode err =
     \<lparr>StatusCode = statusCode, Code = errorCode, Err = Wrapped err\<rparr>"

definition NewErrorWithMsg :: "int \<Rightarrow> ErrorCode \<Rightarrow> string \<Rightarrow> Error" where
  "NewErrorWithMsg statusCode errorCode msg =
     \<lparr>StatusCode = statusCode, Code = errorCode, Err = Msg msg\<rparr>"

definition NewInternalServiceError :: "failure \<Rightarrow> Error" where
  "NewInternalServiceError err =
     \<lparr>StatusCode = StatusInternalServerError, Code = InternalServiceError, Err = Wrapped err\<rparr>"

text \<open>
  The filter and the page of the db client. The client itself, \<open>V1DBClient\<close>, is not among
  the sources at hand: each service takes the method it calls as an argument, a function
  from the arguments of the call to what the store reports, an error or a result.
\<close>

record DelegationFilter =
  States :: "DelegationState list"
  AfterTimestamp :: int64

record DbResultMap =
  Data :: "DelegationDocument list"
  PaginationToken :: string

text \<open>
  \<open>DelegationsByStakerPk\<close> returns three values: the delegations, the token and the error.
  A nil slice is the empty list and a nil error is \<open>None\<close>.
\<close>

definition DelegationsByStakerPk ::
  "(int64 \<Rightarrow> string) \<Rightarrow> (string \<Rightarrow> DelegationFilter \<Rightarrow> string \<Rightarrow> failure + DbResultMap) \<Rightarrow>
   string \<Rightarrow> DelegationState \<Rightarrow> string \<Rightarrow> DelegationPublic list \<times> string \<times> Error option" where
  "DelegationsByStakerPk ParseTimestampToIsoFormat FindDelegationsByStakerPk stakerPk state pageToken =
     (let filter = (if state \<noteq> [] then \<lparr>States = [state], AfterTimestamp = 0\<rparr>
                    else \<lparr>States = [], AfterTimestamp = 0\<rparr>)
      in case FindDelegationsByStakerPk stakerPk filter pageToken of
           Inl err \<Rightarrow>
             if IsInvalidPaginationTokenError err
             then ([], [], Some (NewError StatusBadRequest BadRequest err))
             else ([], [], Some (NewInternalServiceError err))
         | Inr resultMap \<Rightarrow>
             (map (FromDelegationDocument ParseTimestampToIsoFormat) (Data resultMap),
              PaginationToken resultMap, None))"

text \<open>
  The arguments of \<open>SaveActiveStakingDelegation\<close>, in the order of the service's
  parameters.
\<close>

record ActiveStaking =
  txHashHex :: string
  stakerPkHex :: string
  finalityProviderPkHex :: string
  stakingValue :: uint64
  startHeight :: uint64
  stakingTimestamp :: int64
  timeLock :: uint64
  stakingOutputIndex :: uint64
  stakingTxHex :: string
  isOverflow :: bool

text \<open>
  Modelled from the spec: the document that \<open>createActive\<close> inserts, in the db client
  \<open>V1DBClient.SaveActiveStakingDelegation\<close>, which is not among the sources at hand. The
  spec has the document created in the state Active with the fields of the event and
  without unbonding details.
\<close>

definition newActiveDelegation :: "ActiveStaking \<Rightarrow> DelegationDocument" where
  "newActiveDelegation a =
     \<lparr>StakingTxHashHex = txHashHex a,
      StakerPkHex = stakerPkHex a,
      FinalityProviderPkHex = finalityProviderPkHex a,
      StakingValue = stakingValue a,
      State = Active,
      StakingTx = \<lparr>TxHex = stakingTxHex a, OutputIndex = stakingOutputIndex a,
                   StartTimestamp = stakingTimestamp a, StartHeight = startHeight a,
                   TimeLock = timeLock a\<rparr>,
      UnbondingTx = None,
      IsOverflow = isOverflow a\<rparr>"

text \<open>
  Modelled from the spec: the insert of the db client, \<open>V1DBClient.SaveActiveStakingDelegation\<close>,
  which is not among the sources at hand. The spec has \<open>createActive\<close> insert a new
  document when there is none with the hash, and return a duplicate signal, writing
  nothing, when a document with that hash exists already. The flag says whether the
  driver fails, in which case nothing is written.
\<close>

definition createActive ::
  "bool \<Rightarrow> DelegationDocument list \<Rightarrow> ActiveStaking \<Rightarrow> failure option \<times> DelegationDocument list" where
  "createActive driverErr coll a =
     (if driverErr then (Some DriverError, coll)
      else if \<exists>d \<in> set coll. StakingTxHashHex d = txHashHex a
      then (Some (DuplicateKeyError (txHashHex a) ''delegation already exists''), coll)
      else (None, coll @ [newActiveDelegation a]))"

text \<open>
  The service \<open>SaveActiveStakingDelegation\<close>. Its first argument is the method of the db
  client it calls: from the delegation collection and the arguments to the error the
  store reports and the collection it leaves.
\<close>

definition SaveActiveStakingDelegation ::
  "(DelegationDocument list \<Rightarrow> ActiveStaking \<Rightarrow> failure option \<times> DelegationDocument list) \<Rightarrow>
   DelegationDocument list \<Rightarrow> ActiveStaking \<Rightarrow> Error option \<times> DelegationDocument list" where
  "SaveActiveStakingDelegation dbSaveActiveStakingDelegation coll a =
     (case dbSaveActiveStakingDelegation coll a of
        (Some err, coll') \<Rightarrow>
          if IsDuplicateKeyError err then (None, coll')
          else (Some (NewInternalServiceError err), coll')
      | (None, coll') \<Rightarrow> (None, coll'))"

definition GetDelegation ::
  "(string \<Rightarrow> failure + DelegationDocument) \<Rightarrow> string \<Rightarrow> Error + DelegationDocument" where
  "GetDelegation FindDelegationByTxHashHex txHash =
     (case FindDelegationByTxHashHex txHash of
        Inl err \<Rightarrow>
          if IsNotFoundError err
          then Inl (NewErrorWithMsg StatusNotFound NotFound
                      ''staking delegation not found, please retry'')
          else Inl (NewInternalServiceError err)
      | Inr delegation \<Rightarrow> Inr delegation)"

text \<open>
  The handler \<open>GetDelegationByTxHash\<close>. \<open>handler.ParseTxHashQuery\<close> and \<open>handler.NewResult\<close>
  are declared outside the sources at hand: the parser is an argument, from the request
  and the name of the query parameter to an error or the hash, and a result is the data
  with the status 200.
\<close>

record Result =
  ResultData :: DelegationPublic
  Status :: int

definition NewResult :: "DelegationPublic \<Rightarrow> Result" where
  "NewResult d = \<lparr>ResultData = d, Status = StatusOK\<rparr>"

definition GetDelegationByTxHash ::
  "(int64 \<Rightarrow> string) \<Rightarrow> ('request \<Rightarrow> string \<Rightarrow> Error + string) \<Rightarrow>
   (string \<Rightarrow> failure + DelegationDocument) \<Rightarrow> 'request \<Rightarrow> Error + Result" where
  "GetDelegationByTxHash ParseTimestampToIsoFormat ParseTxHashQuery FindDelegationByTxHashHex request =
     (case ParseTxHashQuery request ''staking_tx_hash_hex'' of
        Inl err \<Rightarrow> Inl err
      | Inr stakingTxHash \<Rightarrow>
          (case GetDelegation FindDelegationByTxHashHex stakingTxHash of
             Inl err \<Rightarrow> Inl err
           | Inr delegation \<Rightarrow>
               Inr (NewResult (FromDelegationDocument ParseTimestampToIsoFormat delegation))))"

section \<open>What the event source is told\<close>

text \<open>The three outcomes the processor hands to the queue transport.\<close>

datatype Outcome = Ack | Retry | Fatal

text \<open>
  Modelled from the spec: the caller of the stats methods, the stats step of the event
  processor, is not among the sources at hand. The spec has it treat the outcome
  \<open>alreadyApplied\<close> of the composite operation as an idempotent no-op and not as a
  failure: a duplicate is resolved to a silent success and never surfaced as an error
  to the event source. A failure of the storage is handed back for redelivery, and a
  violated invariant is fatal. The composite operation reports \<open>alreadyApplied\<close> as
  its \<open>NotFoundError\<close>.
\<close>

definition statsOutcome :: "failure + unit \<Rightarrow> Outcome" where
  "statsOutcome r =
     (case r of
        Inr _ \<Rightarrow> Ack
      | Inl (NotFoundError _ _) \<Rightarrow> Ack
      | Inl DriverError \<Rightarrow> Retry
      | Inl _ \<Rightarrow> Fatal)"

section \<open>The withdraw event in the state machine\<close>

text \<open>
  Modelled from the spec: the two other states of the lifecycle
  \<open>Active \<rightarrow> UnbondingRequested \<rightarrow> Unbonded \<rightarrow> Withdrawn\<close>. The types package, which declares
  the states, is not among the sources at hand; the tests name \<open>types.Withdrawn\<close>.
\<close>

definition UnbondingRequested :: DelegationState where
  "UnbondingRequested = ''unbonding_requested''"

definition Withdrawn :: DelegationState where
  "Withdrawn = ''withdrawn''"

text \<open>
  Modelled from the spec: the two events of the claim as the tests send them, a
  Timelock-expired event with its tx-type and a Withdraw event, both for the staking
  transaction of the document at hand.
\<close>

datatype TxType = ActiveTxType | UnbondingTxType

datatype Event = ExpiredStakingEvent TxType | WithdrawStakingEvent

text \<open>
  Modelled from the spec: the processing of a Withdraw event, which is not among the
  sources at hand (only its tests are). The transition table of the spec requires the
  state Unbonded and gives Withdrawn. On a mismatch: in the state Active or
  UnbondingRequested the event is out of order, the document is not mutated and
  redelivery is requested; in the state Withdrawn the event is a duplicate, ignored and
  acknowledged. A state that is not in the table is an invariant violation, fatal.
\<close>

definition processWithdrawStakingEvent :: "DelegationDocument \<Rightarrow> Outcome \<times> DelegationDocument" where
  "processWithdrawStakingEvent d =
     (if State d = Unbonded then (Ack, d\<lparr>State := Withdrawn\<rparr>)
      else if State d = Active \<or> State d = UnbondingRequested then (Retry, d)
      else if State d = Withdrawn then (Ack, d)
      else (Fatal, d))"

text \<open>
  Modelled from the spec: the processing of a Timelock-expired event, which is not among
  the sources at hand. With the tx-type active the table requires the state Active, with
  the tx-type unbonding the state UnbondingRequested or Active with unbonding fields, and
  gives Unbonded. A document that is already Unbonded or Withdrawn makes the event a
  duplicate, ignored and acknowledged; any other state is not in the table, fatal.
\<close>

definition processExpiredStakingEvent ::
  "TxType \<Rightarrow> DelegationDocument \<Rightarrow> Outcome \<times> DelegationDocument" where
  "processExpiredStakingEvent txType d =
     (if State d = Unbonded \<or> State d = Withdrawn then (Ack, d)
      else (case txType of
              ActiveTxType \<Rightarrow>
                if State d = Active then (Ack, d\<lparr>State := Unbonded\<rparr>) else (Fatal, d)
            | UnbondingTxType \<Rightarrow>
                if State d = UnbondingRequested \<or> (State d = Active \<and> UnbondingTx d \<noteq> None)
                then (Ack, d\<lparr>State := Unbonded\<rparr>)
                else (Fatal, d)))"

text \<open>Modelled from the spec: the processor on one event for the document.\<close>

fun processEvent :: "DelegationDocument \<Rightarrow> Event \<Rightarrow> Outcome \<times> DelegationDocument" where
  "processEvent d (ExpiredStakingEvent txType) = processExpiredStakingEvent txType d"
| "processEvent d WithdrawStakingEvent = processWithdrawStakingEvent d"

text \<open>
  Modelled from the spec: the queue transport, which owns redelivery. The first message
  is delivered; on Retry it goes back to the end of the queue, on any other outcome
  it leaves the queue. The number bounds the deliveries: \<open>Some\<close> is the document once the
  queue is empty, \<open>None\<close> says that messages are still queued after that many deliveries.
\<close>

fun deliver :: "nat \<Rightarrow> DelegationDocument \<Rightarrow> Event list \<Rightarrow> DelegationDocument option" where
  "deliver n d [] = Some d"
| "deliver 0 d (e # queue) = None"
| "deliver (Suc n) d (e # queue) =
     (case processEvent d e of
        (Retry, d') \<Rightarrow> deliver n d' (queue @ [e])
      | (_, d') \<Rightarrow> deliver n d' queue)"

text \<open>
  The number of deliveries, in a run of events processed one after the other, that
  moved the document into the state Withdrawn.
\<close>

fun withdrawals :: "DelegationDocument \<Rightarrow> Event list \<Rightarrow> nat" where
  "withdrawals d [] = 0"
| "withdrawals d (e # events) =
     (if State d \<noteq> Withdrawn \<and> State (snd (processEvent d e)) = Withdrawn then 1 else 0) +
     withdrawals (snd (processEvent d e)) events"

section \<open>Concrete inputs\<close>

text \<open>A driver that never fails, with the given random draw.\<close>

definition quietEnv :: "nat \<Rightarrow> Env" where
  "quietEnv draw =
     \<lparr>startSessionErr = False, lockUpdateErr = False, randDraw = draw,
      statsUpdateErr = False, commitErr = False\<rparr>"

definition twoShards :: Config where
  "twoShards = \<lparr>LogicalShardCount = 2, DbBatchSizeLimit = 1\<rparr>"

text \<open>
  A database in which the locks of the transactions \<open>a\<close> and \<open>b\<close> have been created and
  no stats have been written.
\<close>

definition freshDb :: Database where
  "freshDb =
     \<lparr>StatsLockCollection =
        [NewStatsLockDocument ''a:active'' False False False,
         NewStatsLockDocument ''b:active'' False False False,
         NewStatsLockDocument ''a:unbonded'' False False False],
      OverallStatsCollection = [],
      FinalityProviderStatsCollection = []\<rparr>"

text \<open>The amount \<open>2^63\<close>, the least \<open>uint64\<close> that \<open>int64\<close> cannot hold.\<close>

definition hugeAmount :: uint64 where
  "hugeAmount = 9223372036854775808"

text \<open>The fresh database after the stats of the transaction \<open>a\<close> have been added.\<close>

definition lockedDb :: Database where
  "lockedDb = snd (IncrementOverallStats twoShards (quietEnv 3) freshDb ''a'' 5)"

text \<open>
  The same database after the stats of the transaction \<open>a\<close> have also been added to its
  finality provider; and the update document of an increment by five.
\<close>

definition bothLockedDb :: Database where
  "bothLockedDb = snd (IncrementFinalityProviderStats twoShards (quietEnv 2) lockedDb ''a'' ''fp'' 5)"

definition plusFive :: inc_update where
  "plusFive = [(''active_tvl'', 5), (''total_tvl'', 5), (''active_delegations'', 1),
               (''total_delegations'', 1)]"

text \<open>
  A database with shard documents of the providers \<open>a\<close> and \<open>b\<close>, and one with a shard
  document of the provider key \<open>a:b\<close>; a configuration with two shards and a given
  batch size.
\<close>

definition providerDb :: Database where
  "providerDb =
     \<lparr>StatsLockCollection = [],
      OverallStatsCollection = [],
      FinalityProviderStatsCollection =
        [\<lparr>Id_stats = ''a:0'', ActiveTvl = 1, TotalTvl = 1, ActiveDelegations = 1,
          TotalDelegations = 1\<rparr>,
         \<lparr>Id_stats = ''b:1'', ActiveTvl = 2, TotalTvl = 2, ActiveDelegations = 1,
          TotalDelegations = 1\<rparr>,
         \<lparr>Id_stats = ''a:1'', ActiveTvl = 3, TotalTvl = 4, ActiveDelegations = 1,
          TotalDelegations = 2\<rparr>]\<rparr>"

definition colonDb :: Database where
  "colonDb =
     \<lparr>StatsLockCollection = [],
      OverallStatsCollection = [],
      FinalityProviderStatsCollection =
        [\<lparr>Id_stats = ''a:b:0'', ActiveTvl = 1, TotalTvl = 1, ActiveDelegations = 1,
          TotalDelegations = 1\<rparr>]\<rparr>"

definition batchesOf :: "int \<Rightarrow> Config" where
  "batchesOf n = \<lparr>LogicalShardCount = 2, DbBatchSizeLimit = n\<rparr>"

text \<open>The entry of a provider in the map the query returned.\<close>

definition entryOf ::
  "(failure + (string \<rightharpoonup> StatsDocument)) option \<Rightarrow> string \<Rightarrow> StatsDocument option" where
  "entryOf r pk = (case r of Some (Inr m) \<Rightarrow> m pk | _ \<Rightarrow> None)"

text \<open>Whether the query returned a map, and not an error or nothing at all.\<close>

definition returnsMap :: "(failure + (string \<rightharpoonup> StatsDocument)) option \<Rightarrow> bool" where
  "returnsMap r = (case r of Some (Inr m) \<Rightarrow> True | _ \<Rightarrow> False)"

text \<open>The greatest \<open>uint64\<close>, \<open>2^64 - 1\<close>.\<close>

definition maxAmount :: uint64 where
  "maxAmount = 18446744073709551615"

text \<open>
  An Active-staking creation and the document it creates; a store that holds that
  document under the hash \<open>a\<close>, fails for the hash \<open>e\<close> and has nothing else; a store that
  rejects the page token \<open>bad\<close>, fails for the token \<open>down\<close>, and has one page for the
  staker \<open>s\<close>; a parser that takes the request for the hash and rejects the empty
  request; and a stand-in for the formatting of timestamps.
\<close>

definition sampleStaking :: ActiveStaking where
  "sampleStaking =
     \<lparr>txHashHex = ''a'', stakerPkHex = ''s'', finalityProviderPkHex = ''fp'',
      stakingValue = 10000, startHeight = 100, stakingTimestamp = 1700000000, timeLock = 64,
      stakingOutputIndex = 0, stakingTxHex = ''00'', isOverflow = False\<rparr>"

definition sampleDelegation :: DelegationDocument where
  "sampleDelegation = newActiveDelegation sampleStaking"

definition sampleFind :: "string \<Rightarrow> failure + DelegationDocument" where
  "sampleFind h =
     (if h = ''a'' then Inr sampleDelegation
      else if h = ''e'' then Inl DriverError
      else Inl (NotFoundError h ''delegation not found''))"

definition samplePages :: "string \<Rightarrow> DelegationFilter \<Rightarrow> string \<Rightarrow> failure + DbResultMap" where
  "samplePages stakerPk flt pageToken =
     (if pageToken = ''bad'' then Inl (InvalidPaginationTokenError ''invalid pagination token'')
      else if pageToken = ''down'' then Inl DriverError
      else if stakerPk = ''s'' \<and> pageToken = []
      then Inr \<lparr>Data = [sampleDelegation], PaginationToken = ''next''\<rparr>
      else Inr \<lparr>Data = [], PaginationToken = []\<rparr>)"

definition sampleParse :: "string \<Rightarrow> string \<Rightarrow> Error + string" where
  "sampleParse request key =
     (if request = [] then Inl (NewErrorWithMsg StatusBadRequest BadRequest ''missing tx hash'')
      else Inr request)"

definition isoStub :: "int64 \<Rightarrow> string" where
  "isoStub t = ''1970-01-01T00:00:00Z''"

section \<open>Properties of the stats ledger\<close>

subsection \<open>One update\<close>

lemma shardDoc_upsert_same:
  "shardDoc i (UpdateOne_upsert i u coll) = applyInc u (shardDoc i coll)"
  by (induction coll) (auto simp: shardDoc_def applyInc_def emptyStats_def)

lemma shardDoc_upsert_other:
  "j \<noteq> i \<Longrightarrow> shardDoc j (UpdateOne_upsert i u coll) = shardDoc j coll"
  by (induction coll) (auto simp: shardDoc_def applyInc_def emptyStats_def)

lemma UpdateOne_lock_unmatched:
  "snd (UpdateOne_lock i f coll) = 0 \<Longrightarrow> fst (UpdateOne_lock i f coll) = coll"
  by (induction coll) (auto split: if_splits)

lemma updateStatsLockByFieldName_Inl:
  "updateStatsLockByFieldName e db h st f = (Inl x, db') \<Longrightarrow> db' = db"
  by (auto simp: updateStatsLockByFieldName_def Let_def UpdateOne_lock_unmatched split: if_splits)

text \<open>
  The two ways \<open>updateOverallStats\<close> ends: with an error and the database as it was, or
  with the lock flipped and one shard incremented.
\<close>

lemma updateOverallStats_cases:
  assumes "updateOverallStats cfg env db st h u = (r, db')"
  shows "(r \<noteq> Inr () \<and> db' = db) \<or>
         (r = Inr () \<and> (\<exists>sid. generateOverallStatsId cfg (randDraw env) = Inr sid \<and>
            snd (UpdateOne_lock (constructStatsLockId h st) ''overall_stats''
                   (StatsLockCollection db)) \<noteq> 0 \<and>
            db' = db\<lparr>StatsLockCollection :=
                       fst (UpdateOne_lock (constructStatsLockId h st) ''overall_stats''
                              (StatsLockCollection db)),
                     OverallStatsCollection :=
                       UpdateOne_upsert sid u (OverallStatsCollection db)\<rparr>))"
  using assms
  by (auto simp: updateOverallStats_def WithTransaction_def updateStatsLockByFieldName_def Let_def
           split: if_splits prod.splits sum.splits)

lemma incOf_subtract:
  "incOf [(''active_tvl'', a), (''active_delegations'', b)] ''active_tvl'' = a"
  "incOf [(''active_tvl'', a), (''active_delegations'', b)] ''active_delegations'' = b"
  "incOf [(''active_tvl'', a), (''active_delegations'', b)] ''total_tvl'' = 0"
  "incOf [(''active_tvl'', a), (''active_delegations'', b)] ''total_delegations'' = 0"
  by (simp_all add: incOf_def)

lemma incOf_increment:
  "incOf [(''active_tvl'', a), (''total_tvl'', b), (''active_delegations'', c),
          (''total_delegations'', d)] ''active_tvl'' = a"
  "incOf [(''active_tvl'', a), (''total_tvl'', b), (''active_delegations'', c),
          (''total_delegations'', d)] ''total_tvl'' = b"
  "incOf [(''active_tvl'', a), (''total_tvl'', b), (''active_delegations'', c),
          (''total_delegations'', d)] ''active_delegations'' = c"
  "incOf [(''active_tvl'', a), (''total_tvl'', b), (''active_delegations'', c),
          (''total_delegations'', d)] ''total_delegations'' = d"
  by (simp_all add: incOf_def)

lemma generateOverallStatsId_shard:
  assumes "generateOverallStatsId cfg draw = Inr sid"
  shows "sid \<in> set (allShardIds cfg)"
proof -
  from assms have pos: "0 < LogicalShardCount cfg"
    and sid: "sid = Sprint (int draw mod LogicalShardCount cfg)"
    by (auto simp: generateOverallStatsId_def Intn_def split: if_splits)
  let ?k = "nat (int draw mod LogicalShardCount cfg)"
  have "?k < nat (LogicalShardCount cfg)" using pos by (simp add: nat_less_iff)
  moreover have "Sprint (int ?k) = sid" using pos by (simp add: sid)
  ultimately have "sid \<in> (\<lambda>i. Sprint (int i)) ` {0 ..< nat (LogicalShardCount cfg)}"
    by (intro image_eqI [where x = ?k]) simp_all
  then show ?thesis by (simp add: allShardIds_def)
qed

lemma sint_minus_exact:
  fixes x a :: "64 word"
  assumes "- (2 ^ 63) \<le> sint x - int (unat a)"
  shows "sint (x - a) = sint x - int (unat a)"
proof -
  let ?k = "sint x - int (unat a)"
  have up: "sint x < 2 ^ 63" using sint_lt [of x] by simp
  have "0 \<le> int (unat a)" by simp
  with up have hi: "?k < 2 ^ 63" by linarith
  have "x - a = word_of_int ?k" by simp
  then have "sint (x - a) = signed_take_bit 63 ?k"
    by (simp only: signed_of_int) simp
  also have "\<dots> = ?k"
    using assms hi by (intro signed_take_bit_int_eq_self) simp_all
  finally show ?thesis .
qed

lemma sint_minus_one_exact:
  fixes x :: "64 word"
  assumes "- (2 ^ 63) < sint x"
  shows "sint (x - 1) = sint x - 1"
  using sint_minus_exact [of x 1] assms by simp

text \<open>
  C7 (as amended). A call of \<open>SubtractOverallStats\<close> leaves the \<open>total_tvl\<close> and
  \<open>total_delegations\<close> of every shard as they were, and leaves every shard other than the
  one it drew as it was. When the call succeeds, a shard was drawn, and its \<open>active_tvl\<close>
  changed by \<open>-int64(amount)\<close> and its \<open>active_delegations\<close> by \<open>-1\<close> in \<open>int64\<close> arithmetic,
  that is modulo \<open>2^64\<close>: the signed \<open>active_tvl\<close> went down by exactly the amount whenever
  the old value minus the amount is not below \<open>-2^63\<close>, and the signed
  \<open>active_delegations\<close> went down by exactly one whenever the old value is above \<open>-2^63\<close>.
  When the call fails, the database is unchanged. The stats of the finality providers
  are never touched.
\<close>

theorem SubtractOverallStats_frame:
  assumes "SubtractOverallStats cfg env db stakingTxHashHex amount = (r, db')"
  shows "(\<forall>i. TotalTvl (shardDoc i (OverallStatsCollection db')) =
               TotalTvl (shardDoc i (OverallStatsCollection db)) \<and>
             TotalDelegations (shardDoc i (OverallStatsCollection db')) =
               TotalDelegations (shardDoc i (OverallStatsCollection db)))
       \<and> (\<forall>i. generateOverallStatsId cfg (randDraw env) \<noteq> Inr i \<longrightarrow>
             shardDoc i (OverallStatsCollection db') = shardDoc i (OverallStatsCollection db))
       \<and> (r = Inr () \<longrightarrow>
            (\<exists>shardId. generateOverallStatsId cfg (randDraw env) = Inr shardId \<and>
               ActiveTvl (shardDoc shardId (OverallStatsCollection db')) =
                 ActiveTvl (shardDoc shardId (OverallStatsCollection db)) - int64_of_uint64 amount \<and>
               ActiveDelegations (shardDoc shardId (OverallStatsCollection db')) =
                 ActiveDelegations (shardDoc shardId (OverallStatsCollection db)) - 1 \<and>
               (- (2 ^ 63) \<le> sint (ActiveTvl (shardDoc shardId (OverallStatsCollection db))) -
                              int (unat amount) \<longrightarrow>
                  sint (ActiveTvl (shardDoc shardId (OverallStatsCollection db'))) =
                    sint (ActiveTvl (shardDoc shardId (OverallStatsCollection db))) -
                    int (unat amount)) \<and>
               (- (2 ^ 63) < sint (ActiveDelegations (shardDoc shardId (OverallStatsCollection db)))
                  \<longrightarrow>
                  sint (ActiveDelegations (shardDoc shardId (OverallStatsCollection db'))) =
                    sint (ActiveDelegations (shardDoc shardId (OverallStatsCollection db))) - 1)))
       \<and> (r \<noteq> Inr () \<longrightarrow> db' = db)
       \<and> FinalityProviderStatsCollection db' = FinalityProviderStatsCollection db"
proof -
  let ?u = "[(''active_tvl'', - int64_of_uint64 amount), (''active_delegations'', - 1)]"
  from assms have "updateOverallStats cfg env db (ToString Unbonded) stakingTxHashHex ?u = (r, db')"
    by (simp add: SubtractOverallStats_def)
  from updateOverallStats_cases [OF this]
  show ?thesis
  proof (elim disjE conjE exE)
    assume "r \<noteq> Inr ()" "db' = db"
    then show ?thesis by simp
  next
    fix sid
    assume r: "r = Inr ()" and sid: "generateOverallStatsId cfg (randDraw env) = Inr sid"
      and db': "db' = db\<lparr>StatsLockCollection :=
                       fst (UpdateOne_lock (constructStatsLockId stakingTxHashHex (ToString Unbonded)) ''overall_stats'' (StatsLockCollection db)),
                     OverallStatsCollection := UpdateOne_upsert sid ?u (OverallStatsCollection db)\<rparr>"
    have same: "shardDoc sid (OverallStatsCollection db') = applyInc ?u (shardDoc sid (OverallStatsCollection db))"
      by (simp add: db' shardDoc_upsert_same)
    have other: "shardDoc j (OverallStatsCollection db') = shardDoc j (OverallStatsCollection db)" if "j \<noteq> sid" for j
      using that by (simp add: db' shardDoc_upsert_other)
    have tot: "TotalTvl (shardDoc i (OverallStatsCollection db')) = TotalTvl (shardDoc i (OverallStatsCollection db)) \<and>
             TotalDelegations (shardDoc i (OverallStatsCollection db')) = TotalDelegations (shardDoc i (OverallStatsCollection db))" for i
    proof (cases "i = sid")
      case True
      then show ?thesis by (simp add: same applyInc_def incOf_subtract)
    next
      case False
      then show ?thesis by (simp add: other)
    qed
    have act: "ActiveTvl (shardDoc sid (OverallStatsCollection db')) =
                 ActiveTvl (shardDoc sid (OverallStatsCollection db)) - int64_of_uint64 amount \<and>
               ActiveDelegations (shardDoc sid (OverallStatsCollection db')) =
                 ActiveDelegations (shardDoc sid (OverallStatsCollection db)) - 1"
      by (simp add: same applyInc_def incOf_subtract)
    have fp: "FinalityProviderStatsCollection db' = FinalityProviderStatsCollection db"
      by (simp add: db')
    have exact: "sint (ActiveTvl (shardDoc sid (OverallStatsCollection db'))) =
                   sint (ActiveTvl (shardDoc sid (OverallStatsCollection db))) - int (unat amount)"
      if "- (2 ^ 63) \<le> sint (ActiveTvl (shardDoc sid (OverallStatsCollection db))) -
                         int (unat amount)"
      using act sint_minus_exact [OF that] by (simp add: int64_of_uint64_def)
    have exact1: "sint (ActiveDelegations (shardDoc sid (OverallStatsCollection db'))) =
                   sint (ActiveDelegations (shardDoc sid (OverallStatsCollection db))) - 1"
      if "- (2 ^ 63) < sint (ActiveDelegations (shardDoc sid (OverallStatsCollection db)))"
      using act sint_minus_one_exact [OF that] by simp
    have success: "\<exists>shardId. generateOverallStatsId cfg (randDraw env) = Inr shardId \<and>
               ActiveTvl (shardDoc shardId (OverallStatsCollection db')) =
                 ActiveTvl (shardDoc shardId (OverallStatsCollection db)) - int64_of_uint64 amount \<and>
               ActiveDelegations (shardDoc shardId (OverallStatsCollection db')) =
                 ActiveDelegations (shardDoc shardId (OverallStatsCollection db)) - 1 \<and>
               (- (2 ^ 63) \<le> sint (ActiveTvl (shardDoc shardId (OverallStatsCollection db))) -
                              int (unat amount) \<longrightarrow>
                  sint (ActiveTvl (shardDoc shardId (OverallStatsCollection db'))) =
                    sint (ActiveTvl (shardDoc shardId (OverallStatsCollection db))) -
                    int (unat amount)) \<and>
               (- (2 ^ 63) < sint (ActiveDelegations (shardDoc shardId (OverallStatsCollection db)))
                  \<longrightarrow>
                  sint (ActiveDelegations (shardDoc shardId (OverallStatsCollection db'))) =
                    sint (ActiveDelegations (shardDoc shardId (OverallStatsCollection db))) - 1)"
      using sid act exact exact1 by (intro exI [where x = sid]) blast
    have others: "\<forall>i. generateOverallStatsId cfg (randDraw env) \<noteq> Inr i \<longrightarrow>
             shardDoc i (OverallStatsCollection db') = shardDoc i (OverallStatsCollection db)"
      using other sid by auto
    from tot others success fp r show ?thesis by blast
  qed
qed

theorem SubtractOverallStats_frame_witness:
  "fst (SubtractOverallStats twoShards (quietEnv 3) freshDb ''a'' 5) = Inr ()
   \<and> generateOverallStatsId twoShards (randDraw (quietEnv 3)) = Inr ''1''
   \<and> ActiveTvl (shardDoc ''1'' (OverallStatsCollection
        (snd (SubtractOverallStats twoShards (quietEnv 3) freshDb ''a'' 5)))) =
       ActiveTvl (shardDoc ''1'' (OverallStatsCollection freshDb)) - 5
   \<and> ActiveDelegations (shardDoc ''1'' (OverallStatsCollection
        (snd (SubtractOverallStats twoShards (quietEnv 3) freshDb ''a'' 5)))) =
       ActiveDelegations (shardDoc ''1'' (OverallStatsCollection freshDb)) - 1
   \<and> sint (ActiveTvl (shardDoc ''1'' (OverallStatsCollection
        (snd (SubtractOverallStats twoShards (quietEnv 3) freshDb ''a'' 5))))) = - 5
   \<and> sint (ActiveDelegations (shardDoc ''1'' (OverallStatsCollection
        (snd (SubtractOverallStats twoShards (quietEnv 3) freshDb ''a'' 5))))) = - 1
   \<and> TotalTvl (shardDoc ''1'' (OverallStatsCollection
        (snd (SubtractOverallStats twoShards (quietEnv 3) freshDb ''a'' 5)))) =
       TotalTvl (shardDoc ''1'' (OverallStatsCollection freshDb))
   \<and> shardDoc ''0'' (OverallStatsCollection
        (snd (SubtractOverallStats twoShards (quietEnv 3) freshDb ''a'' 5))) =
       shardDoc ''0'' (OverallStatsCollection freshDb)"
proof -
  let ?r = "SubtractOverallStats twoShards (quietEnv 3) freshDb ''a'' 5"
  have ok: "fst ?r = Inr ()" by code_simp
  have gen: "generateOverallStatsId twoShards (randDraw (quietEnv 3)) = Inr ''1''" by code_simp
  have h: "?r = (fst ?r, snd ?r)" by simp
  note t = SubtractOverallStats_frame [OF h]
  have other: "generateOverallStatsId twoShards (randDraw (quietEnv 3)) \<noteq> Inr ''0''"
    by (simp add: gen)
  have old: "sint (ActiveTvl (shardDoc ''1'' (OverallStatsCollection freshDb))) = 0"
    "sint (ActiveDelegations (shardDoc ''1'' (OverallStatsCollection freshDb))) = 0"
    by (simp_all add: shardDoc_def freshDb_def emptyStats_def)
  have room: "- (2 ^ 63) \<le> sint (ActiveTvl (shardDoc ''1'' (OverallStatsCollection freshDb))) -
                           int (unat (5 :: uint64))"
    "- (2 ^ 63) < sint (ActiveDelegations (shardDoc ''1'' (OverallStatsCollection freshDb)))"
    by (simp_all add: old)
  from t have a: "shardDoc ''0'' (OverallStatsCollection (snd ?r)) =
                  shardDoc ''0'' (OverallStatsCollection freshDb)"
    using other by blast
  from t have b: "TotalTvl (shardDoc ''1'' (OverallStatsCollection (snd ?r))) =
                  TotalTvl (shardDoc ''1'' (OverallStatsCollection freshDb))"
    by blast
  from t ok gen have c:
    "ActiveTvl (shardDoc ''1'' (OverallStatsCollection (snd ?r))) =
       ActiveTvl (shardDoc ''1'' (OverallStatsCollection freshDb)) - int64_of_uint64 5
     \<and> ActiveDelegations (shardDoc ''1'' (OverallStatsCollection (snd ?r))) =
       ActiveDelegations (shardDoc ''1'' (OverallStatsCollection freshDb)) - 1
     \<and> (- (2 ^ 63) \<le> sint (ActiveTvl (shardDoc ''1'' (OverallStatsCollection freshDb))) -
                      int (unat (5 :: uint64)) \<longrightarrow>
          sint (ActiveTvl (shardDoc ''1'' (OverallStatsCollection (snd ?r)))) =
            sint (ActiveTvl (shardDoc ''1'' (OverallStatsCollection freshDb))) -
            int (unat (5 :: uint64)))
     \<and> (- (2 ^ 63) < sint (ActiveDelegations (shardDoc ''1'' (OverallStatsCollection freshDb)))
          \<longrightarrow>
          sint (ActiveDelegations (shardDoc ''1'' (OverallStatsCollection (snd ?r)))) =
            sint (ActiveDelegations (shardDoc ''1'' (OverallStatsCollection freshDb))) - 1)"
    by auto
  from c room have d:
    "sint (ActiveTvl (shardDoc ''1'' (OverallStatsCollection (snd ?r)))) =
       sint (ActiveTvl (shardDoc ''1'' (OverallStatsCollection freshDb))) - int (unat (5 :: uint64))"
    "sint (ActiveDelegations (shardDoc ''1'' (OverallStatsCollection (snd ?r)))) =
       sint (ActiveDelegations (shardDoc ''1'' (OverallStatsCollection freshDb))) - 1"
    by blast+
  have e: "sint (ActiveTvl (shardDoc ''1'' (OverallStatsCollection (snd ?r)))) = - 5"
    "sint (ActiveDelegations (shardDoc ''1'' (OverallStatsCollection (snd ?r)))) = - 1"
    using d by (simp_all only: old) simp_all
  from a b c e ok gen show ?thesis by (simp add: int64_of_uint64_def)
qed

text \<open>
  A call with the amount \<open>2^64 - 1\<close> on the fresh ledger succeeds, and the \<open>active_tvl\<close> of
  the shard it drew goes from 0 to 1: \<open>-int64(2^64 - 1)\<close> is \<open>+1\<close>, so the counter went up by
  one and not down by the amount.
\<close>

theorem SubtractOverallStats_wraps:
  "fst (SubtractOverallStats twoShards (quietEnv 3) freshDb ''a'' maxAmount) = Inr ()
   \<and> generateOverallStatsId twoShards (randDraw (quietEnv 3)) = Inr ''1''
   \<and> sint (ActiveTvl (shardDoc ''1'' (OverallStatsCollection freshDb))) = 0
   \<and> sint (ActiveTvl (shardDoc ''1'' (OverallStatsCollection
        (snd (SubtractOverallStats twoShards (quietEnv 3) freshDb ''a'' maxAmount))))) = 1
   \<and> int (unat maxAmount) = 18446744073709551615"
proof -
  have run: "SubtractOverallStats twoShards (quietEnv 3) freshDb ''a'' maxAmount =
    (Inr (),
     \<lparr>StatsLockCollection =
        [\<lparr>Id_lock = ''a:active'', OverallStats = False, StakerStats = False,
          FinalityProviderStats = False\<rparr>,
         \<lparr>Id_lock = ''b:active'', OverallStats = False, StakerStats = False,
          FinalityProviderStats = False\<rparr>,
         \<lparr>Id_lock = ''a:unbonded'', OverallStats = True, StakerStats = False,
          FinalityProviderStats = False\<rparr>],
      OverallStatsCollection =
        [\<lparr>Id_stats = ''1'', ActiveTvl = 1, TotalTvl = 0,
          ActiveDelegations = - 1, TotalDelegations = 0\<rparr>],
      FinalityProviderStatsCollection = []\<rparr>)"
    by (simp add: twoShards_def freshDb_def quietEnv_def SubtractOverallStats_def
        updateOverallStats_def WithTransaction_def updateStatsLockByFieldName_def
        generateOverallStatsId_def Intn_def Sprint_def decimal.simps digit_def
        constructStatsLockId_def ToString_def Unbonded_def NewStatsLockDocument_def lockField_def
        setLockField_def applyInc_def incOf_def emptyStats_def int64_of_uint64_def maxAmount_def)
  have gen: "generateOverallStatsId twoShards (randDraw (quietEnv 3)) = Inr ''1''"
    by (simp add: generateOverallStatsId_def Intn_def twoShards_def quietEnv_def Sprint_def
          decimal.simps digit_def)
  have before: "sint (ActiveTvl (shardDoc ''1'' (OverallStatsCollection freshDb))) = 0"
    by (simp add: shardDoc_def freshDb_def emptyStats_def)
  have after: "sint (ActiveTvl (shardDoc ''1'' (OverallStatsCollection
        (snd (SubtractOverallStats twoShards (quietEnv 3) freshDb ''a'' maxAmount))))) = 1"
    unfolding run by (simp add: shardDoc_def)
  have amount: "int (unat maxAmount) = 18446744073709551615"
    by (simp add: maxAmount_def)
  from run gen before after amount show ?thesis by simp
qed

subsection \<open>The sum over the shards\<close>

lemma shardTotal_upsert:
  assumes "i \<in> set ids"
  shows "shardTotal ActiveTvl ids (UpdateOne_upsert i u coll) = shardTotal ActiveTvl ids coll + incOf u ''active_tvl''"
    and "shardTotal TotalTvl ids (UpdateOne_upsert i u coll) = shardTotal TotalTvl ids coll + incOf u ''total_tvl''"
    and "shardTotal ActiveDelegations ids (UpdateOne_upsert i u coll) = shardTotal ActiveDelegations ids coll + incOf u ''active_delegations''"
    and "shardTotal TotalDelegations ids (UpdateOne_upsert i u coll) = shardTotal TotalDelegations ids coll + incOf u ''total_delegations''"
  using assms
  by (induction coll; simp add: shardTotal_def Find_in_def applyInc_def emptyStats_def)+

lemma foldl_addStats:
  "foldl addStats a ds =
     a\<lparr>ActiveTvl := ActiveTvl a + sum_list (map ActiveTvl ds),
       TotalTvl := TotalTvl a + sum_list (map TotalTvl ds),
       ActiveDelegations := ActiveDelegations a + sum_list (map ActiveDelegations ds),
       TotalDelegations := TotalDelegations a + sum_list (map TotalDelegations ds)\<rparr>"
  by (induction ds arbitrary: a) (simp_all add: addStats_def add.assoc)

lemma GetOverallStats_total:
  "GetOverallStats cfg False False db =
     Inr \<lparr>Id_stats = [],
          ActiveTvl = shardTotal ActiveTvl (allShardIds cfg) (OverallStatsCollection db),
          TotalTvl = shardTotal TotalTvl (allShardIds cfg) (OverallStatsCollection db),
          ActiveDelegations = shardTotal ActiveDelegations (allShardIds cfg) (OverallStatsCollection db),
          TotalDelegations = shardTotal TotalDelegations (allShardIds cfg) (OverallStatsCollection db)\<rparr>"
  by (simp add: GetOverallStats_def foldl_addStats shardTotal_def emptyStats_def)


lemma IncrementOverallStats_total:
  assumes "IncrementOverallStats cfg env db h v = (Inr (), db')"
  shows "shardTotal ActiveTvl (allShardIds cfg) (OverallStatsCollection db') =
           shardTotal ActiveTvl (allShardIds cfg) (OverallStatsCollection db) + v"
    and "shardTotal TotalTvl (allShardIds cfg) (OverallStatsCollection db') =
           shardTotal TotalTvl (allShardIds cfg) (OverallStatsCollection db) + v"
    and "shardTotal ActiveDelegations (allShardIds cfg) (OverallStatsCollection db') =
           shardTotal ActiveDelegations (allShardIds cfg) (OverallStatsCollection db) + 1"
    and "shardTotal TotalDelegations (allShardIds cfg) (OverallStatsCollection db') =
           shardTotal TotalDelegations (allShardIds cfg) (OverallStatsCollection db) + 1"
proof -
  let ?u = "[(''active_tvl'', int64_of_uint64 v), (''total_tvl'', int64_of_uint64 v),
             (''active_delegations'', 1), (''total_delegations'', 1)]"
  from assms have "updateOverallStats cfg env db (ToString Active) h ?u = (Inr (), db')"
    by (simp add: IncrementOverallStats_def)
  from updateOverallStats_cases [OF this] obtain sid where
    sid: "generateOverallStatsId cfg (randDraw env) = Inr sid"
    and coll: "OverallStatsCollection db' = UpdateOne_upsert sid ?u (OverallStatsCollection db)"
    by auto
  have mem: "sid \<in> set (allShardIds cfg)" by (rule generateOverallStatsId_shard [OF sid])
  show "shardTotal ActiveTvl (allShardIds cfg) (OverallStatsCollection db') =
           shardTotal ActiveTvl (allShardIds cfg) (OverallStatsCollection db) + v"
    by (simp only: coll shardTotal_upsert [OF mem] incOf_increment int64_of_uint64_def)
  show "shardTotal TotalTvl (allShardIds cfg) (OverallStatsCollection db') =
           shardTotal TotalTvl (allShardIds cfg) (OverallStatsCollection db) + v"
    by (simp only: coll shardTotal_upsert [OF mem] incOf_increment int64_of_uint64_def)
  show "shardTotal ActiveDelegations (allShardIds cfg) (OverallStatsCollection db') =
           shardTotal ActiveDelegations (allShardIds cfg) (OverallStatsCollection db) + 1"
    by (simp only: coll shardTotal_upsert [OF mem] incOf_increment)
  show "shardTotal TotalDelegations (allShardIds cfg) (OverallStatsCollection db') =
           shardTotal TotalDelegations (allShardIds cfg) (OverallStatsCollection db) + 1"
    by (simp only: coll shardTotal_upsert [OF mem] incOf_increment)
qed

lemma SubtractOverallStats_total:
  assumes "SubtractOverallStats cfg env db h v = (Inr (), db')"
  shows "shardTotal ActiveTvl (allShardIds cfg) (OverallStatsCollection db') =
           shardTotal ActiveTvl (allShardIds cfg) (OverallStatsCollection db) - v"
    and "shardTotal TotalTvl (allShardIds cfg) (OverallStatsCollection db') =
           shardTotal TotalTvl (allShardIds cfg) (OverallStatsCollection db)"
    and "shardTotal ActiveDelegations (allShardIds cfg) (OverallStatsCollection db') =
           shardTotal ActiveDelegations (allShardIds cfg) (OverallStatsCollection db) - 1"
    and "shardTotal TotalDelegations (allShardIds cfg) (OverallStatsCollection db') =
           shardTotal TotalDelegations (allShardIds cfg) (OverallStatsCollection db)"
proof -
  let ?u = "[(''active_tvl'', - int64_of_uint64 v), (''active_delegations'', - 1)]"
  from assms have "updateOverallStats cfg env db (ToString Unbonded) h ?u = (Inr (), db')"
    by (simp add: SubtractOverallStats_def)
  from updateOverallStats_cases [OF this] obtain sid where
    sid: "generateOverallStatsId cfg (randDraw env) = Inr sid"
    and coll: "OverallStatsCollection db' = UpdateOne_upsert sid ?u (OverallStatsCollection db)"
    by auto
  have mem: "sid \<in> set (allShardIds cfg)" by (rule generateOverallStatsId_shard [OF sid])
  show "shardTotal ActiveTvl (allShardIds cfg) (OverallStatsCollection db') =
           shardTotal ActiveTvl (allShardIds cfg) (OverallStatsCollection db) - v"
    by (simp add: coll shardTotal_upsert [OF mem] incOf_subtract int64_of_uint64_def)
  show "shardTotal TotalTvl (allShardIds cfg) (OverallStatsCollection db') =
           shardTotal TotalTvl (allShardIds cfg) (OverallStatsCollection db)"
    by (simp add: coll shardTotal_upsert [OF mem] incOf_subtract)
  show "shardTotal ActiveDelegations (allShardIds cfg) (OverallStatsCollection db') =
           shardTotal ActiveDelegations (allShardIds cfg) (OverallStatsCollection db) - 1"
    by (simp add: coll shardTotal_upsert [OF mem] incOf_subtract)
  show "shardTotal TotalDelegations (allShardIds cfg) (OverallStatsCollection db') =
           shardTotal TotalDelegations (allShardIds cfg) (OverallStatsCollection db)"
    by (simp add: coll shardTotal_upsert [OF mem] incOf_subtract)
qed

lemma IncrementOverallStats_each_total:
  "IncrementOverallStats_each cfg db v calls = (Inr (), db') \<Longrightarrow>
   shardTotal ActiveTvl (allShardIds cfg) (OverallStatsCollection db') =
     shardTotal ActiveTvl (allShardIds cfg) (OverallStatsCollection db) + of_nat (length calls) * v \<and>
   shardTotal TotalTvl (allShardIds cfg) (OverallStatsCollection db') =
     shardTotal TotalTvl (allShardIds cfg) (OverallStatsCollection db) + of_nat (length calls) * v \<and>
   shardTotal ActiveDelegations (allShardIds cfg) (OverallStatsCollection db') =
     shardTotal ActiveDelegations (allShardIds cfg) (OverallStatsCollection db) + of_nat (length calls) \<and>
   shardTotal TotalDelegations (allShardIds cfg) (OverallStatsCollection db') =
     shardTotal TotalDelegations (allShardIds cfg) (OverallStatsCollection db) + of_nat (length calls)"
proof (induction calls arbitrary: db)
  case Nil
  then show ?case by simp
next
  case (Cons c calls)
  obtain env h where c: "c = (env, h)" by (cases c)
  from Cons.prems obtain db1 where
    one: "IncrementOverallStats cfg env db h v = (Inr (), db1)"
    and rest: "IncrementOverallStats_each cfg db1 v calls = (Inr (), db')"
    by (auto simp: c split: prod.splits sum.splits)
  show ?case
    using Cons.IH [OF rest] IncrementOverallStats_total [OF one]
    by (simp add: algebra_simps)
qed

lemma SubtractOverallStats_each_total:
  "SubtractOverallStats_each cfg db v calls = (Inr (), db') \<Longrightarrow>
   shardTotal ActiveTvl (allShardIds cfg) (OverallStatsCollection db') =
     shardTotal ActiveTvl (allShardIds cfg) (OverallStatsCollection db) - of_nat (length calls) * v \<and>
   shardTotal TotalTvl (allShardIds cfg) (OverallStatsCollection db') =
     shardTotal TotalTvl (allShardIds cfg) (OverallStatsCollection db) \<and>
   shardTotal ActiveDelegations (allShardIds cfg) (OverallStatsCollection db') =
     shardTotal ActiveDelegations (allShardIds cfg) (OverallStatsCollection db) - of_nat (length calls) \<and>
   shardTotal TotalDelegations (allShardIds cfg) (OverallStatsCollection db') =
     shardTotal TotalDelegations (allShardIds cfg) (OverallStatsCollection db)"
proof (induction calls arbitrary: db)
  case Nil
  then show ?case by simp
next
  case (Cons c calls)
  obtain env h where c: "c = (env, h)" by (cases c)
  from Cons.prems obtain db1 where
    one: "SubtractOverallStats cfg env db h v = (Inr (), db1)"
    and rest: "SubtractOverallStats_each cfg db1 v calls = (Inr (), db')"
    by (auto simp: c split: prod.splits sum.splits)
  show ?case
    using Cons.IH [OF rest] SubtractOverallStats_total [OF one]
    by (simp add: algebra_simps)
qed

lemma sint_of_nat_small:
  assumes "k < 2 ^ 63"
  shows "sint (of_nat k :: 64 word) = int k"
proof -
  have "int k < int (2 ^ 63)" using assms by (simp only: of_nat_less_iff)
  then have "int k < 2 ^ 63" by simp
  then have "signed_take_bit 63 (int k) = int k"
    by (intro signed_take_bit_int_eq_self) simp_all
  then show ?thesis by (simp add: signed_of_nat)
qed

lemma exact_counter:
  assumes "m \<le> n" and "n * unat v < 2 ^ 63"
  shows "sint (of_nat m * v :: 64 word) = int (m * unat v)"
proof -
  have "m * unat v \<le> n * unat v" using assms(1) by (rule mult_le_mono1)
  then have small: "m * unat v < 2 ^ 63" using assms(2) by (rule order_le_less_trans)
  have "of_nat m * v = (of_nat (m * unat v) :: 64 word)" by simp
  then show ?thesis using sint_of_nat_small [OF small] by simp
qed

text \<open>
  C1 (as amended). Start from a ledger with no document of any shard. After \<open>N\<close> calls of
  \<open>IncrementOverallStats\<close> and then \<open>M \<le> N\<close> calls of \<open>SubtractOverallStats\<close>, all with
  the amount \<open>v\<close> and all successful, \<open>GetOverallStats\<close> returns the counters
  \<open>(N - M) * v\<close>, \<open>N * v\<close>, \<open>N - M\<close> and \<open>N\<close> as \<open>int64\<close> values, that is modulo \<open>2^64\<close>,
  whatever shard each call drew. When \<open>N * v\<close> and \<open>N\<close> are below \<open>2^63\<close>, the signed
  counters are exactly these numbers.
\<close>

theorem GetOverallStats_after_calls:
  assumes start: "Find_in (allShardIds cfg) (OverallStatsCollection db) = []"
    and incs: "IncrementOverallStats_each cfg db v increments = (Inr (), db1)"
    and subs: "SubtractOverallStats_each cfg db1 v subtractions = (Inr (), db2)"
    and le: "length subtractions \<le> length increments"
  shows "GetOverallStats cfg False False db2 =
           Inr \<lparr>Id_stats = [],
                ActiveTvl = of_nat (length increments - length subtractions) * v,
                TotalTvl = of_nat (length increments) * v,
                ActiveDelegations = of_nat (length increments - length subtractions),
                TotalDelegations = of_nat (length increments)\<rparr>
         \<and> (length increments * unat v < 2 ^ 63 \<and> length increments < 2 ^ 63 \<longrightarrow>
              (\<exists>r. GetOverallStats cfg False False db2 = Inr r \<and>
                 sint (ActiveTvl r) = int ((length increments - length subtractions) * unat v) \<and>
                 sint (TotalTvl r) = int (length increments * unat v) \<and>
                 sint (ActiveDelegations r) = int (length increments - length subtractions) \<and>
                 sint (TotalDelegations r) = int (length increments)))"
proof -
  let ?N = "length increments" and ?M = "length subtractions"
  have zero: "shardTotal f (allShardIds cfg) (OverallStatsCollection db) = 0" for f
    by (simp add: shardTotal_def start)
  note a = IncrementOverallStats_each_total [OF incs]
    and b = SubtractOverallStats_each_total [OF subs]
  have diff: "(of_nat (?N - ?M) :: 64 word) = of_nat ?N - of_nat ?M"
    using le by simp
  have r: "GetOverallStats cfg False False db2 =
           Inr \<lparr>Id_stats = [],
                ActiveTvl = of_nat (?N - ?M) * v,
                TotalTvl = of_nat ?N * v,
                ActiveDelegations = of_nat (?N - ?M),
                TotalDelegations = of_nat ?N\<rparr>"
    unfolding GetOverallStats_total using a b
    by (simp add: zero diff algebra_simps)
  have tvl: "sint (of_nat (?N - ?M) * v :: 64 word) = int ((?N - ?M) * unat v)"
    "sint (of_nat ?N * v :: 64 word) = int (?N * unat v)"
    if "?N * unat v < 2 ^ 63"
    using exact_counter [OF _ that] by simp_all
  have cnt: "sint (of_nat (?N - ?M) :: 64 word) = int (?N - ?M)"
    "sint (of_nat ?N :: 64 word) = int ?N"
    if "?N < 2 ^ 63"
  proof -
    have "?N - ?M < 2 ^ 63" using that by (rule less_imp_diff_less)
    then show "sint (of_nat (?N - ?M) :: 64 word) = int (?N - ?M)"
      by (rule sint_of_nat_small)
    show "sint (of_nat ?N :: 64 word) = int ?N"
      using that by (rule sint_of_nat_small)
  qed
  from r tvl cnt show ?thesis by simp
qed

theorem GetOverallStats_after_calls_witness:
  "GetOverallStats twoShards False False
     (snd (SubtractOverallStats_each twoShards
        (snd (IncrementOverallStats_each twoShards freshDb 5
                [(quietEnv 3, ''a''), (quietEnv 0, ''b'')]))
        5 [(quietEnv 4, ''a'')])) =
     Inr \<lparr>Id_stats = [], ActiveTvl = 5, TotalTvl = 10, ActiveDelegations = 1,
          TotalDelegations = 2\<rparr>"
proof -
  let ?incs = "[(quietEnv 3, ''a''), (quietEnv 0, ''b'')]"
  let ?subs = "[(quietEnv 4, ''a'')]"
  let ?r1 = "IncrementOverallStats_each twoShards freshDb 5 ?incs"
  let ?r2 = "SubtractOverallStats_each twoShards (snd ?r1) 5 ?subs"
  have start: "Find_in (allShardIds twoShards) (OverallStatsCollection freshDb) = []"
    by (simp add: freshDb_def Find_in_def)
  have "fst ?r1 = Inr ()" by code_simp
  then have h1: "?r1 = (Inr (), snd ?r1)" by (simp add: prod_eq_iff)
  have "fst ?r2 = Inr ()" by code_simp
  then have h2: "?r2 = (Inr (), snd ?r2)" by (simp add: prod_eq_iff)
  have le: "length ?subs \<le> length ?incs" by simp
  from GetOverallStats_after_calls [OF start h1 h2 le] show ?thesis by simp
qed

text \<open>
  One call of \<open>IncrementOverallStats\<close> with the amount \<open>2^63\<close> on the fresh ledger succeeds,
  and \<open>GetOverallStats\<close> then returns the \<open>int64\<close> with the bits of \<open>2^63\<close>, which is the
  number \<open>-2^63\<close> and not \<open>1 * 2^63\<close>.
\<close>

theorem GetOverallStats_wraps:
  "fst (IncrementOverallStats_each twoShards freshDb hugeAmount [(quietEnv 3, ''a'')]) = Inr ()
   \<and> GetOverallStats twoShards False False
        (snd (IncrementOverallStats_each twoShards freshDb hugeAmount [(quietEnv 3, ''a'')])) =
       Inr \<lparr>Id_stats = [], ActiveTvl = hugeAmount, TotalTvl = hugeAmount,
            ActiveDelegations = 1, TotalDelegations = 1\<rparr>
   \<and> sint hugeAmount = - 9223372036854775808
   \<and> int ((1 - 0) * unat hugeAmount) = 9223372036854775808"
proof -
  have run: "IncrementOverallStats_each twoShards freshDb hugeAmount [(quietEnv 3, ''a'')] =
    (Inr (),
     \<lparr>StatsLockCollection =
        [\<lparr>Id_lock = ''a:active'', OverallStats = True, StakerStats = False,
          FinalityProviderStats = False\<rparr>,
         \<lparr>Id_lock = ''b:active'', OverallStats = False, StakerStats = False,
          FinalityProviderStats = False\<rparr>,
         \<lparr>Id_lock = ''a:unbonded'', OverallStats = False, StakerStats = False,
          FinalityProviderStats = False\<rparr>],
      OverallStatsCollection =
        [\<lparr>Id_stats = ''1'', ActiveTvl = hugeAmount, TotalTvl = hugeAmount,
          ActiveDelegations = 1, TotalDelegations = 1\<rparr>],
      FinalityProviderStatsCollection = []\<rparr>)"
    by (simp add: twoShards_def freshDb_def quietEnv_def IncrementOverallStats_def
        updateOverallStats_def WithTransaction_def updateStatsLockByFieldName_def
        generateOverallStatsId_def Intn_def Sprint_def decimal.simps digit_def
        constructStatsLockId_def ToString_def Active_def NewStatsLockDocument_def lockField_def
        setLockField_def applyInc_def incOf_def emptyStats_def int64_of_uint64_def)
  have get: "GetOverallStats twoShards False False
        (snd (IncrementOverallStats_each twoShards freshDb hugeAmount [(quietEnv 3, ''a'')])) =
       Inr \<lparr>Id_stats = [], ActiveTvl = hugeAmount, TotalTvl = hugeAmount,
            ActiveDelegations = 1, TotalDelegations = 1\<rparr>"
    unfolding run
    by (simp add: GetOverallStats_def twoShards_def allShardIds_def Find_in_def Sprint_def
        decimal.simps digit_def addStats_def emptyStats_def upt_rec)
  have s: "sint hugeAmount = - 9223372036854775808"
    by (simp add: hugeAmount_def)
  have u: "int ((1 - 0) * unat hugeAmount) = 9223372036854775808"
    by (simp add: hugeAmount_def)
  from run get s u show ?thesis by simp
qed

section \<open>Properties of the locks\<close>


lemma lock_le_refl: "lock_le d d"
  by (simp add: lock_le_def)

lemma lock_le_trans: "lock_le a b \<Longrightarrow> lock_le b c \<Longrightarrow> lock_le a c"
  by (auto simp: lock_le_def)

lemma locks_grow_refl: "locks_grow coll coll"
  by (simp add: locks_grow_def list_all2_refl lock_le_refl)

lemma locks_grow_nth:
  "locks_grow coll coll' \<longleftrightarrow>
     length coll \<le> length coll' \<and> (\<forall>k < length coll. lock_le (coll ! k) (coll' ! k))"
  by (auto simp: locks_grow_def list_all2_conv_all_nth)

lemma locks_grow_trans:
  "locks_grow a b \<Longrightarrow> locks_grow b c \<Longrightarrow> locks_grow a c"
  unfolding locks_grow_nth
  by (meson lock_le_trans order_less_le_trans order_trans)

lemma locks_grow_append: "locks_grow coll (coll @ ds)"
  by (simp add: locks_grow_nth nth_append lock_le_refl)

lemma lock_le_setLockField:
  "lockField f d = Some False \<Longrightarrow> lock_le d (setLockField f True d)"
  by (auto simp: lock_le_def lockField_def setLockField_def split: if_splits)

lemma locks_grow_Cons:
  "lock_le d d' \<Longrightarrow> locks_grow ds ds' \<Longrightarrow> locks_grow (d # ds) (d' # ds')"
  by (simp add: locks_grow_def)

lemma UpdateOne_lock_grow: "locks_grow coll (fst (UpdateOne_lock i f coll))"
  by (induction coll)
     (auto simp: locks_grow_refl lock_le_refl lock_le_setLockField intro!: locks_grow_Cons)

lemma UpdateOne_lock_length: "length (fst (UpdateOne_lock i f coll)) = length coll"
  by (induction coll) auto

lemma find_grow:
  assumes "locks_grow coll coll'" and "find (\<lambda>d. Id_lock d = i) coll = Some d"
  shows "\<exists>d'. find (\<lambda>d. Id_lock d = i) coll' = Some d' \<and> lock_le d d'"
  using assms
proof (induction coll arbitrary: coll')
  case Nil
  then show ?case by simp
next
  case (Cons a coll)
  from Cons.prems(1) obtain a' rest where c': "coll' = a' # rest"
    and le: "lock_le a a'" and g: "locks_grow coll rest"
    by (cases coll') (auto simp: locks_grow_def)
  show ?case
  proof (cases "Id_lock a = i")
    case True
    with Cons.prems(2) le show ?thesis by (auto simp: c' lock_le_def)
  next
    case False
    with Cons.prems(2) have "find (\<lambda>d. Id_lock d = i) coll = Some d" by simp
    from Cons.IH [OF g this] False le show ?thesis by (auto simp: c' lock_le_def)
  qed
qed

lemma lockField_le:
  "lock_le d d' \<Longrightarrow> lockField f d = Some True \<Longrightarrow> lockField f d' = Some True"
  by (auto simp: lock_le_def lockField_def split: if_splits)

lemma lockValue_grow:
  assumes "locks_grow (StatsLockCollection db) (StatsLockCollection db')"
    and "lockValue db i f = Some True"
  shows "lockValue db' i f = Some True"
proof -
  from assms(2) obtain d where d: "find (\<lambda>d. Id_lock d = i) (StatsLockCollection db) = Some d"
    and t: "lockField f d = Some True"
    by (auto simp: lockValue_def split: option.splits)
  from find_grow [OF assms(1) d] obtain d' where
    "find (\<lambda>d. Id_lock d = i) (StatsLockCollection db') = Some d'" "lock_le d d'" by blast
  with t show ?thesis by (simp add: lockValue_def lockField_le)
qed

lemma updateFinalityProviderStats_cases:
  assumes "updateFinalityProviderStats cfg env db st h pk u = (r, db')"
  shows "(r \<noteq> Inr () \<and> db' = db) \<or>
         (r = Inr () \<and> (\<exists>sid. generateFinalityProviderStatsId cfg (randDraw env) pk = Inr sid \<and>
            snd (UpdateOne_lock (constructStatsLockId h st) ''finality_provider_stats''
                   (StatsLockCollection db)) \<noteq> 0 \<and>
            db' = db\<lparr>StatsLockCollection :=
                       fst (UpdateOne_lock (constructStatsLockId h st) ''finality_provider_stats''
                              (StatsLockCollection db)),
                     FinalityProviderStatsCollection :=
                       UpdateOne_upsert sid u (FinalityProviderStatsCollection db)\<rparr>))"
  using assms
  by (auto simp: updateFinalityProviderStats_def WithTransaction_def updateStatsLockByFieldName_def Let_def
           split: if_splits prod.splits sum.splits)

lemma updateOverallStats_grow:
  "locks_grow (StatsLockCollection db) (StatsLockCollection (snd (updateOverallStats cfg env db st h u)))"
  using updateOverallStats_cases [of cfg env db st h u "fst (updateOverallStats cfg env db st h u)"
          "snd (updateOverallStats cfg env db st h u)"]
  by (auto simp: locks_grow_refl UpdateOne_lock_grow)

lemma updateFinalityProviderStats_grow:
  "locks_grow (StatsLockCollection db)
     (StatsLockCollection (snd (updateFinalityProviderStats cfg env db st h pk u)))"
  using updateFinalityProviderStats_cases [of cfg env db st h pk u
          "fst (updateFinalityProviderStats cfg env db st h pk u)"
          "snd (updateFinalityProviderStats cfg env db st h pk u)"]
  by (auto simp: locks_grow_refl UpdateOne_lock_grow)

lemma perform_grow:
  "locks_grow (StatsLockCollection db) (StatsLockCollection (perform cfg db op))"
proof (cases op)
  case (OpGetOrCreateStatsLock e h t)
  then show ?thesis
    by (auto simp: GetOrCreateStatsLock_def Let_def locks_grow_refl locks_grow_append
             split: option.splits)
next
  case (OpUpdateStatsLockByFieldName e h st f)
  then show ?thesis
    by (auto simp: updateStatsLockByFieldName_def Let_def locks_grow_refl UpdateOne_lock_grow)
next
  case (OpIncrementOverallStats env h a)
  then show ?thesis by (simp add: IncrementOverallStats_def updateOverallStats_grow)
next
  case (OpSubtractOverallStats env h a)
  then show ?thesis by (simp add: SubtractOverallStats_def updateOverallStats_grow)
next
  case (OpIncrementFinalityProviderStats env h pk a)
  then show ?thesis
    by (simp add: IncrementFinalityProviderStats_def updateFinalityProviderStats_grow)
next
  case (OpSubtractFinalityProviderStats env h pk a)
  then show ?thesis
    by (simp add: SubtractFinalityProviderStats_def updateFinalityProviderStats_grow)
qed

lemma performAll_grow:
  "locks_grow (StatsLockCollection db) (StatsLockCollection (performAll cfg db ops))"
proof (induction ops arbitrary: db)
  case Nil
  then show ?case by (simp add: performAll_def locks_grow_refl)
next
  case (Cons op ops)
  have "locks_grow (StatsLockCollection db) (StatsLockCollection (perform cfg db op))"
    by (rule perform_grow)
  moreover have "locks_grow (StatsLockCollection (perform cfg db op))
                   (StatsLockCollection (performAll cfg (perform cfg db op) ops))"
    by (rule Cons.IH)
  ultimately show ?case by (auto simp: performAll_def intro: locks_grow_trans)
qed


lemma UpdateOne_lock_count: "snd (UpdateOne_lock i f coll) \<le> 1"
  by (induction coll) auto

lemma UpdateOne_lock_matched:
  assumes "snd (UpdateOne_lock i f coll) \<noteq> 0"
  shows "\<exists>k < length coll. Id_lock (coll ! k) = i \<and> lockField f (coll ! k) = Some False \<and>
           (\<forall>j < k. \<not> (Id_lock (coll ! j) = i \<and> lockField f (coll ! j) = Some False)) \<and>
           fst (UpdateOne_lock i f coll) = coll[k := setLockField f True (coll ! k)]"
  using assms
proof (induction coll)
  case Nil
  then show ?case by simp
next
  case (Cons d ds)
  show ?case
  proof (cases "Id_lock d = i \<and> lockField f d = Some False")
    case True
    then have "0 < length (d # ds) \<and> Id_lock ((d # ds) ! 0) = i \<and> lockField f ((d # ds) ! 0) = Some False \<and>
           (\<forall>j < 0. \<not> (Id_lock ((d # ds) ! j) = i \<and> lockField f ((d # ds) ! j) = Some False)) \<and>
           fst (UpdateOne_lock i f (d # ds)) = (d # ds)[0 := setLockField f True ((d # ds) ! 0)]"
      by simp
    then show ?thesis by blast
  next
    case False
    with Cons.prems have "snd (UpdateOne_lock i f ds) \<noteq> 0" by auto
    from Cons.IH [OF this] obtain k where k: "k < length ds" "Id_lock (ds ! k) = i"
      "lockField f (ds ! k) = Some False"
      "\<forall>j < k. \<not> (Id_lock (ds ! j) = i \<and> lockField f (ds ! j) = Some False)"
      "fst (UpdateOne_lock i f ds) = ds[k := setLockField f True (ds ! k)]"
      by blast
    have "\<forall>j < Suc k. \<not> (Id_lock ((d # ds) ! j) = i \<and> lockField f ((d # ds) ! j) = Some False)"
      using k(4) False by (auto simp: less_Suc_eq_0_disj)
    with k False have "Suc k < length (d # ds) \<and> Id_lock ((d # ds) ! Suc k) = i \<and>
           lockField f ((d # ds) ! Suc k) = Some False \<and>
           (\<forall>j < Suc k. \<not> (Id_lock ((d # ds) ! j) = i \<and> lockField f ((d # ds) ! j) = Some False)) \<and>
           fst (UpdateOne_lock i f (d # ds)) = (d # ds)[Suc k := setLockField f True ((d # ds) ! Suc k)]"
      by auto
    then show ?thesis by blast
  qed
qed

lemma UpdateOne_lock_none:
  "(\<forall>d \<in> set coll. Id_lock d = i \<longrightarrow> lockField f d \<noteq> Some False) \<Longrightarrow>
   UpdateOne_lock i f coll = (coll, 0)"
  by (induction coll) auto

lemma find_unique:
  assumes "distinct (map Id_lock coll)" and "find (\<lambda>d. Id_lock d = i) coll = Some d"
    and "d' \<in> set coll" and "Id_lock d' = i"
  shows "d' = d"
  using assms
proof (induction coll)
  case Nil
  then show ?case by simp
next
  case (Cons a coll)
  then show ?case by (auto split: if_splits simp: image_iff)
qed

lemma already_true_unmatched:
  assumes "distinct (map Id_lock (StatsLockCollection db))" and "lockValue db i f = Some True"
  shows "\<forall>d \<in> set (StatsLockCollection db). Id_lock d = i \<longrightarrow> lockField f d \<noteq> Some False"
proof -
  from assms(2) obtain d where d: "find (\<lambda>d. Id_lock d = i) (StatsLockCollection db) = Some d"
    and t: "lockField f d = Some True"
    by (auto simp: lockValue_def split: option.splits)
  show ?thesis
  proof (intro ballI impI)
    fix d' assume "d' \<in> set (StatsLockCollection db)" "Id_lock d' = i"
    from find_unique [OF assms(1) d this] t show "lockField f d' \<noteq> Some False" by simp
  qed
qed

text \<open>
  C4. \<open>GetOrCreateStatsLock\<close> inserts a record with every boolean false when there is no
  record with the id, and returns an existing record without writing. An update of a lock
  that succeeds has set one field of one record from false to true and written nothing
  else. Whatever methods run afterwards, a field that is true stays true. An attempt to
  flip a field that is already true matches no document, changes nothing and returns
  the not-found error.
\<close>

theorem StatsLock_false_to_true_only:
  "(find (\<lambda>d. Id_lock d = constructStatsLockId h txType) (StatsLockCollection db) = None \<longrightarrow>
      GetOrCreateStatsLock False db h txType =
        (Inr (NewStatsLockDocument (constructStatsLockId h txType) False False False),
         db\<lparr>StatsLockCollection := StatsLockCollection db @
               [NewStatsLockDocument (constructStatsLockId h txType) False False False]\<rparr>))
   \<and> (\<forall>d. find (\<lambda>d. Id_lock d = constructStatsLockId h txType) (StatsLockCollection db) = Some d \<longrightarrow>
         GetOrCreateStatsLock False db h txType = (Inr d, db))
   \<and> (\<forall>db'. updateStatsLockByFieldName driverErr db h state fieldName = (Inr (), db') \<longrightarrow>
         (\<exists>k < length (StatsLockCollection db).
            Id_lock (StatsLockCollection db ! k) = constructStatsLockId h state \<and>
            lockField fieldName (StatsLockCollection db ! k) = Some False \<and>
            lockField fieldName (StatsLockCollection db' ! k) = Some True \<and>
            db' = db\<lparr>StatsLockCollection := (StatsLockCollection db)
                       [k := setLockField fieldName True (StatsLockCollection db ! k)]\<rparr>))
   \<and> (\<forall>i f. lockValue db i f = Some True \<longrightarrow> lockValue (performAll cfg db ops) i f = Some True)
   \<and> (distinct (map Id_lock (StatsLockCollection db)) \<and>
       lockValue db (constructStatsLockId h state) fieldName = Some True \<longrightarrow>
         UpdateOne_lock (constructStatsLockId h state) fieldName (StatsLockCollection db) =
           (StatsLockCollection db, 0) \<and>
         updateStatsLockByFieldName False db h state fieldName =
           (Inl (NotFoundError h ''document already processed or does not exist''), db))"
proof (intro conjI allI impI)
  assume "find (\<lambda>d. Id_lock d = constructStatsLockId h txType) (StatsLockCollection db) = None"
  then show "GetOrCreateStatsLock False db h txType =
        (Inr (NewStatsLockDocument (constructStatsLockId h txType) False False False),
         db\<lparr>StatsLockCollection := StatsLockCollection db @
               [NewStatsLockDocument (constructStatsLockId h txType) False False False]\<rparr>)"
    by (simp add: GetOrCreateStatsLock_def Let_def)
next
  fix d
  assume "find (\<lambda>d. Id_lock d = constructStatsLockId h txType) (StatsLockCollection db) = Some d"
  then show "GetOrCreateStatsLock False db h txType = (Inr d, db)"
    by (simp add: GetOrCreateStatsLock_def Let_def)
next
  fix db'
  let ?i = "constructStatsLockId h state"
  let ?coll = "StatsLockCollection db"
  assume a: "updateStatsLockByFieldName driverErr db h state fieldName = (Inr (), db')"
  then have m: "snd (UpdateOne_lock ?i fieldName ?coll) \<noteq> 0"
    and db': "db' = db\<lparr>StatsLockCollection := fst (UpdateOne_lock ?i fieldName ?coll)\<rparr>"
    by (auto simp: updateStatsLockByFieldName_def Let_def split: if_splits)
  from UpdateOne_lock_matched [OF m] obtain k where k: "k < length ?coll"
    "Id_lock (?coll ! k) = ?i" "lockField fieldName (?coll ! k) = Some False"
    "fst (UpdateOne_lock ?i fieldName ?coll) = ?coll[k := setLockField fieldName True (?coll ! k)]"
    by blast
  have "lockField fieldName (setLockField fieldName True (?coll ! k)) = Some True"
    using k(3) by (auto simp: lockField_def setLockField_def split: if_splits)
  with k db' show "\<exists>k < length ?coll.
            Id_lock (?coll ! k) = ?i \<and>
            lockField fieldName (?coll ! k) = Some False \<and>
            lockField fieldName (StatsLockCollection db' ! k) = Some True \<and>
            db' = db\<lparr>StatsLockCollection := ?coll[k := setLockField fieldName True (?coll ! k)]\<rparr>"
    by (intro exI [where x = k]) simp
next
  fix i f
  assume "lockValue db i f = Some True"
  with performAll_grow show "lockValue (performAll cfg db ops) i f = Some True"
    by (rule lockValue_grow)
next
  assume a: "distinct (map Id_lock (StatsLockCollection db)) \<and>
       lockValue db (constructStatsLockId h state) fieldName = Some True"
  then have "\<forall>d \<in> set (StatsLockCollection db).
      Id_lock d = constructStatsLockId h state \<longrightarrow> lockField fieldName d \<noteq> Some False"
    using already_true_unmatched by blast
  then show u: "UpdateOne_lock (constructStatsLockId h state) fieldName (StatsLockCollection db) =
           (StatsLockCollection db, 0)"
    by (rule UpdateOne_lock_none)
  show "updateStatsLockByFieldName False db h state fieldName =
           (Inl (NotFoundError h ''document already processed or does not exist''), db)"
    by (simp add: updateStatsLockByFieldName_def u)
qed

theorem StatsLock_false_to_true_only_witness:
  "GetOrCreateStatsLock False freshDb ''c'' ''active'' =
     (Inr (NewStatsLockDocument ''c:active'' False False False),
      freshDb\<lparr>StatsLockCollection := StatsLockCollection freshDb @
                [NewStatsLockDocument ''c:active'' False False False]\<rparr>)
   \<and> GetOrCreateStatsLock False freshDb ''a'' ''active'' =
       (Inr (NewStatsLockDocument ''a:active'' False False False), freshDb)
   \<and> (\<exists>k < length (StatsLockCollection freshDb).
         Id_lock (StatsLockCollection freshDb ! k) = ''a:active'' \<and>
         lockField ''overall_stats'' (StatsLockCollection freshDb ! k) = Some False \<and>
         lockField ''overall_stats'' (StatsLockCollection
           (snd (updateStatsLockByFieldName False freshDb ''a'' ''active'' ''overall_stats'')) ! k) =
           Some True)
   \<and> lockValue lockedDb ''a:active'' ''overall_stats'' = Some True
   \<and> lockValue (performAll twoShards lockedDb
         [OpIncrementOverallStats (quietEnv 1) ''a'' 5,
          OpGetOrCreateStatsLock False ''a'' ''active'',
          OpSubtractOverallStats (quietEnv 2) ''a'' 5])
        ''a:active'' ''overall_stats'' = Some True
   \<and> updateStatsLockByFieldName False lockedDb ''a'' ''active'' ''overall_stats'' =
       (Inl (NotFoundError ''a'' ''document already processed or does not exist''), lockedDb)"
proof -
  let ?ops = "[OpIncrementOverallStats (quietEnv 1) ''a'' 5,
               OpGetOrCreateStatsLock False ''a'' ''active'',
               OpSubtractOverallStats (quietEnv 2) ''a'' 5]"
  have idc: "constructStatsLockId ''c'' ''active'' = ''c:active''"
    and ida: "constructStatsLockId ''a'' ''active'' = ''a:active''"
    by (simp_all add: constructStatsLockId_def)
  have absent: "find (\<lambda>d. Id_lock d = constructStatsLockId ''c'' ''active'')
                  (StatsLockCollection freshDb) = None"
    by (simp add: freshDb_def idc NewStatsLockDocument_def)
  have present: "find (\<lambda>d. Id_lock d = constructStatsLockId ''a'' ''active'')
                  (StatsLockCollection freshDb) =
                 Some (NewStatsLockDocument ''a:active'' False False False)"
    by (simp add: freshDb_def ida NewStatsLockDocument_def)
  let ?u = "updateStatsLockByFieldName False freshDb ''a'' ''active'' ''overall_stats''"
  have "fst ?u = Inr ()" by code_simp
  then have flip: "?u = (Inr (), snd ?u)" by (simp add: prod_eq_iff)
  have true: "lockValue lockedDb ''a:active'' ''overall_stats'' = Some True"
    by code_simp
  have dist: "distinct (map Id_lock (StatsLockCollection lockedDb))"
    by code_simp
  note t1 = StatsLock_false_to_true_only
      [where h = "''c''" and txType = "''active''" and db = freshDb]
  note t2 = StatsLock_false_to_true_only
      [where h = "''a''" and txType = "''active''" and db = freshDb and driverErr = False
         and state = "''active''" and fieldName = "''overall_stats''"]
  note t3 = StatsLock_false_to_true_only
      [where h = "''a''" and db = lockedDb and state = "''active''"
         and fieldName = "''overall_stats''" and cfg = twoShards and ops = ?ops]
  from t1 absent have c1: "GetOrCreateStatsLock False freshDb ''c'' ''active'' =
     (Inr (NewStatsLockDocument ''c:active'' False False False),
      freshDb\<lparr>StatsLockCollection := StatsLockCollection freshDb @
                [NewStatsLockDocument ''c:active'' False False False]\<rparr>)"
    by (simp add: idc)
  from t2 present have c2: "GetOrCreateStatsLock False freshDb ''a'' ''active'' =
       (Inr (NewStatsLockDocument ''a:active'' False False False), freshDb)"
    by blast
  from t2 flip have c3: "\<exists>k < length (StatsLockCollection freshDb).
         Id_lock (StatsLockCollection freshDb ! k) = ''a:active'' \<and>
         lockField ''overall_stats'' (StatsLockCollection freshDb ! k) = Some False \<and>
         lockField ''overall_stats'' (StatsLockCollection (snd ?u) ! k) = Some True"
    unfolding ida by blast
  from t3 true have c4: "lockValue (performAll twoShards lockedDb ?ops)
        ''a:active'' ''overall_stats'' = Some True"
    by blast
  from t3 true dist have c5:
    "updateStatsLockByFieldName False lockedDb ''a'' ''active'' ''overall_stats'' =
       (Inl (NotFoundError ''a'' ''document already processed or does not exist''), lockedDb)"
    unfolding ida by blast
  from c1 c2 c3 true c4 c5 show ?thesis by blast
qed

section \<open>The lock and the delta as one unit\<close>


lemma generateFinalityProviderStatsId_shard:
  assumes "generateFinalityProviderStatsId cfg draw pk = Inr sid"
  shows "sid \<in> set (getAllShardedFinalityProviderId cfg [pk])"
proof -
  from assms have pos: "0 < LogicalShardCount cfg"
    and sid: "sid = pk @ '':'' @ Sprint (int draw mod LogicalShardCount cfg)"
    by (auto simp: generateFinalityProviderStatsId_def Intn_def split: if_splits)
  let ?k = "nat (int draw mod LogicalShardCount cfg)"
  have "?k < nat (LogicalShardCount cfg)" using pos by (simp add: nat_less_iff)
  moreover have "pk @ '':'' @ Sprint (int ?k) = sid" using pos by (simp add: sid)
  ultimately have "sid \<in> (\<lambda>i. pk @ '':'' @ Sprint (int i)) ` {0 ..< nat (LogicalShardCount cfg)}"
    by (intro image_eqI [where x = ?k]) simp_all
  then show ?thesis by (simp add: getAllShardedFinalityProviderId_def)
qed

lemma UpdateOne_lock_one:
  "snd (UpdateOne_lock i f coll) \<noteq> 0 \<Longrightarrow>
   UpdateOne_lock i f coll = (fst (UpdateOne_lock i f coll), 1)"
  using UpdateOne_lock_count [of i f coll] by (simp add: prod_eq_iff)

text \<open>
  C2. \<open>updateOverallStats\<close> and \<open>updateFinalityProviderStats\<close> end in one of two ways.
  Either they succeed, and then the lock field of the family was flipped from false to
  true in one record and one shard document of the family received the delta, and
  nothing else was written; or they return an error and the database is as it was before
  the call, the lock included. So the lock is never flipped without the delta, nor the
  delta applied without the lock. When the lock field is already true (and the driver
  does not fail), no shard counter changes and the method returns its not-found error,
  which its caller, as the spec has it, takes for already applied and acknowledges.
\<close>

theorem stats_update_all_or_nothing:
  assumes overall: "updateOverallStats cfg env db state h u = (r, db')"
    and provider: "updateFinalityProviderStats cfg env db state h fpPkHex u = (r', db'')"
  shows "(r = Inr () \<longrightarrow>
            (\<exists>shardId \<in> set (allShardIds cfg).
               snd (UpdateOne_lock (constructStatsLockId h state) ''overall_stats''
                      (StatsLockCollection db)) = 1 \<and>
               db' = db\<lparr>StatsLockCollection :=
                          fst (UpdateOne_lock (constructStatsLockId h state) ''overall_stats''
                                 (StatsLockCollection db)),
                        OverallStatsCollection :=
                          UpdateOne_upsert shardId u (OverallStatsCollection db)\<rparr>))
       \<and> (r \<noteq> Inr () \<longrightarrow> db' = db)
       \<and> (r' = Inr () \<longrightarrow>
            (\<exists>shardId \<in> set (getAllShardedFinalityProviderId cfg [fpPkHex]).
               snd (UpdateOne_lock (constructStatsLockId h state) ''finality_provider_stats''
                      (StatsLockCollection db)) = 1 \<and>
               db'' = db\<lparr>StatsLockCollection :=
                          fst (UpdateOne_lock (constructStatsLockId h state)
                                 ''finality_provider_stats'' (StatsLockCollection db)),
                         FinalityProviderStatsCollection :=
                          UpdateOne_upsert shardId u (FinalityProviderStatsCollection db)\<rparr>))
       \<and> (r' \<noteq> Inr () \<longrightarrow> db'' = db)
       \<and> (distinct (map Id_lock (StatsLockCollection db)) \<and>
          lockValue db (constructStatsLockId h state) ''overall_stats'' = Some True \<and>
          \<not> startSessionErr env \<and> \<not> lockUpdateErr env \<longrightarrow>
            r = Inl (NotFoundError h ''document already processed or does not exist'') \<and>
            db' = db \<and> statsOutcome r = Ack)
       \<and> (distinct (map Id_lock (StatsLockCollection db)) \<and>
          lockValue db (constructStatsLockId h state) ''finality_provider_stats'' = Some True \<and>
          \<not> startSessionErr env \<and> \<not> lockUpdateErr env \<longrightarrow>
            r' = Inl (NotFoundError h ''document already processed or does not exist'') \<and>
            db'' = db \<and> statsOutcome r' = Ack)"
proof -
  let ?i = "constructStatsLockId h state"
  let ?locks = "StatsLockCollection db"
  note oc = updateOverallStats_cases [OF overall]
  note pc = updateFinalityProviderStats_cases [OF provider]
  have a: "r = Inr () \<longrightarrow>
            (\<exists>shardId \<in> set (allShardIds cfg).
               snd (UpdateOne_lock ?i ''overall_stats'' ?locks) = 1 \<and>
               db' = db\<lparr>StatsLockCollection := fst (UpdateOne_lock ?i ''overall_stats'' ?locks),
                        OverallStatsCollection :=
                          UpdateOne_upsert shardId u (OverallStatsCollection db)\<rparr>)"
    using oc generateOverallStatsId_shard UpdateOne_lock_one [of ?i "''overall_stats''" ?locks]
    by (metis snd_conv)
  have b: "r \<noteq> Inr () \<longrightarrow> db' = db" using oc by blast
  have c: "r' = Inr () \<longrightarrow>
            (\<exists>shardId \<in> set (getAllShardedFinalityProviderId cfg [fpPkHex]).
               snd (UpdateOne_lock ?i ''finality_provider_stats'' ?locks) = 1 \<and>
               db'' = db\<lparr>StatsLockCollection :=
                          fst (UpdateOne_lock ?i ''finality_provider_stats'' ?locks),
                         FinalityProviderStatsCollection :=
                          UpdateOne_upsert shardId u (FinalityProviderStatsCollection db)\<rparr>)"
    using pc generateFinalityProviderStatsId_shard
      UpdateOne_lock_one [of ?i "''finality_provider_stats''" ?locks]
    by (metis snd_conv)
  have d: "r' \<noteq> Inr () \<longrightarrow> db'' = db" using pc by blast
  have e: "r = Inl (NotFoundError h ''document already processed or does not exist'') \<and>
            db' = db \<and> statsOutcome r = Ack"
    if "distinct (map Id_lock ?locks)" "lockValue db ?i ''overall_stats'' = Some True"
      "\<not> startSessionErr env" "\<not> lockUpdateErr env"
  proof -
    have "UpdateOne_lock ?i ''overall_stats'' ?locks = (?locks, 0)"
      using already_true_unmatched [OF that(1,2)] by (rule UpdateOne_lock_none)
    with overall that(3,4) show ?thesis
      by (auto simp: updateOverallStats_def WithTransaction_def updateStatsLockByFieldName_def
            statsOutcome_def)
  qed
  have f: "r' = Inl (NotFoundError h ''document already processed or does not exist'') \<and>
            db'' = db \<and> statsOutcome r' = Ack"
    if "distinct (map Id_lock ?locks)" "lockValue db ?i ''finality_provider_stats'' = Some True"
      "\<not> startSessionErr env" "\<not> lockUpdateErr env"
  proof -
    have "UpdateOne_lock ?i ''finality_provider_stats'' ?locks = (?locks, 0)"
      using already_true_unmatched [OF that(1,2)] by (rule UpdateOne_lock_none)
    with provider that(3,4) show ?thesis
      by (auto simp: updateFinalityProviderStats_def WithTransaction_def
            updateStatsLockByFieldName_def statsOutcome_def)
  qed
  from a b c d e f show ?thesis by blast
qed

theorem stats_update_all_or_nothing_witness:
  "(\<exists>shardId \<in> set (allShardIds twoShards).
      snd (UpdateOne_lock ''a:active'' ''overall_stats'' (StatsLockCollection freshDb)) = 1 \<and>
      snd (updateOverallStats twoShards (quietEnv 3) freshDb ''active'' ''a'' plusFive) =
        freshDb\<lparr>StatsLockCollection :=
                  fst (UpdateOne_lock ''a:active'' ''overall_stats'' (StatsLockCollection freshDb)),
                OverallStatsCollection :=
                  UpdateOne_upsert shardId plusFive (OverallStatsCollection freshDb)\<rparr>)
   \<and> snd (updateOverallStats twoShards ((quietEnv 3)\<lparr>statsUpdateErr := True\<rparr>) freshDb
            ''active'' ''a'' plusFive) = freshDb
   \<and> snd (updateFinalityProviderStats twoShards ((quietEnv 3)\<lparr>statsUpdateErr := True\<rparr>) freshDb
            ''active'' ''a'' ''fp'' plusFive) = freshDb
   \<and> updateOverallStats twoShards (quietEnv 3) bothLockedDb ''active'' ''a'' plusFive =
       (Inl (NotFoundError ''a'' ''document already processed or does not exist''), bothLockedDb)
   \<and> updateFinalityProviderStats twoShards (quietEnv 3) bothLockedDb ''active'' ''a'' ''fp'' plusFive =
       (Inl (NotFoundError ''a'' ''document already processed or does not exist''), bothLockedDb)
   \<and> statsOutcome (fst (updateOverallStats twoShards (quietEnv 3) bothLockedDb ''active'' ''a''
                          plusFive)) = Ack"
proof -
  let ?o = "\<lambda>env db. updateOverallStats twoShards env db ''active'' ''a'' plusFive"
  let ?p = "\<lambda>env db. updateFinalityProviderStats twoShards env db ''active'' ''a'' ''fp'' plusFive"
  let ?bad = "(quietEnv 3)\<lparr>statsUpdateErr := True\<rparr>"
  have ida: "constructStatsLockId ''a'' ''active'' = ''a:active''"
    by (simp add: constructStatsLockId_def)
  have pair: "f = (fst f, snd f)" for f :: "(failure + unit) \<times> Database" by simp
  note good = stats_update_all_or_nothing [OF pair [of "?o (quietEnv 3) freshDb"]
                pair [of "?p (quietEnv 3) freshDb"]]
  note failed = stats_update_all_or_nothing [OF pair [of "?o ?bad freshDb"]
                pair [of "?p ?bad freshDb"]]
  note again = stats_update_all_or_nothing [OF pair [of "?o (quietEnv 3) bothLockedDb"]
                pair [of "?p (quietEnv 3) bothLockedDb"]]
  have ok: "fst (?o (quietEnv 3) freshDb) = Inr ()" by code_simp
  have bad: "fst (?o ?bad freshDb) \<noteq> Inr ()" "fst (?p ?bad freshDb) \<noteq> Inr ()" by code_simp+
  have dist: "distinct (map Id_lock (StatsLockCollection bothLockedDb))" by code_simp
  have t1: "lockValue bothLockedDb ''a:active'' ''overall_stats'' = Some True" by code_simp
  have t2: "lockValue bothLockedDb ''a:active'' ''finality_provider_stats'' = Some True"
    by code_simp
  have quiet: "\<not> startSessionErr (quietEnv 3)" "\<not> lockUpdateErr (quietEnv 3)"
    by (simp_all add: quietEnv_def)
  from good ok have c1: "\<exists>shardId \<in> set (allShardIds twoShards).
      snd (UpdateOne_lock ''a:active'' ''overall_stats'' (StatsLockCollection freshDb)) = 1 \<and>
      snd (?o (quietEnv 3) freshDb) =
        freshDb\<lparr>StatsLockCollection :=
                  fst (UpdateOne_lock ''a:active'' ''overall_stats'' (StatsLockCollection freshDb)),
                OverallStatsCollection :=
                  UpdateOne_upsert shardId plusFive (OverallStatsCollection freshDb)\<rparr>"
    unfolding ida by blast
  from failed bad have c2: "snd (?o ?bad freshDb) = freshDb" "snd (?p ?bad freshDb) = freshDb"
    by blast+
  from again dist t1 quiet have c3:
    "fst (?o (quietEnv 3) bothLockedDb) =
       Inl (NotFoundError ''a'' ''document already processed or does not exist'')
     \<and> snd (?o (quietEnv 3) bothLockedDb) = bothLockedDb
     \<and> statsOutcome (fst (?o (quietEnv 3) bothLockedDb)) = Ack"
    unfolding ida by blast
  from again dist t2 quiet have c4:
    "fst (?p (quietEnv 3) bothLockedDb) =
       Inl (NotFoundError ''a'' ''document already processed or does not exist'')
     \<and> snd (?p (quietEnv 3) bothLockedDb) = bothLockedDb"
    unfolding ida by blast
  from c1 c2 c3 c4 show ?thesis by (simp add: prod_eq_iff statsOutcome_def)
qed

section \<open>Properties of the stats ids\<close>


lemma Split_nonempty: "Split s c \<noteq> []"
  by (induction s) auto

lemma length_Split: "length (Split s c) = Suc (length (filter (\<lambda>x. x = c) s))"
proof (induction s)
  case Nil
  then show ?case by simp
next
  case (Cons x s)
  then show ?case using Split_nonempty [of s c] by (cases "Split s c") auto
qed

lemma Split_no_sep: "c \<notin> set s \<Longrightarrow> Split s c = [s]"
  by (induction s) auto

lemma Split_first: "c \<notin> set a \<Longrightarrow> Split (a @ c # b) c = a # Split b c"
  by (induction a) auto

lemma digit_not_colon: "digit d \<noteq> CHR '':''" "CHR '':'' \<noteq> digit d"
proof -
  have "digit d \<in> set ''0123456789''"
    unfolding digit_def by (rule nth_mem) simp
  then show "digit d \<noteq> CHR '':''" by auto
  then show "CHR '':'' \<noteq> digit d" by (rule not_sym)
qed

lemma decimal_no_colon: "CHR '':'' \<notin> set (decimal n)"
proof (induction n rule: decimal.induct)
  case (1 n)
  then show ?case
    by (subst decimal.simps) (auto simp: digit_not_colon)
qed

lemma Sprint_nat_no_colon: "CHR '':'' \<notin> set (Sprint (int i))"
  by (simp add: Sprint_def decimal_no_colon)

lemma Sprint_mod_no_colon: "0 < n \<Longrightarrow> CHR '':'' \<notin> set (Sprint (int draw mod n))"
  using Sprint_nat_no_colon [of "nat (int draw mod n)"] by simp

lemma extract_shard_id:
  assumes "CHR '':'' \<notin> set pk" and "CHR '':'' \<notin> set s"
  shows "extractFinalityProviderPkHexFromStatsId (pk @ '':'' @ s) = Inr pk"
proof -
  have "Split (pk @ '':'' @ s) CHR '':'' = [pk, s]"
    using Split_first [OF assms(1), of s] Split_no_sep [OF assms(2)] by simp
  then show ?thesis by (simp add: extractFinalityProviderPkHexFromStatsId_def)
qed

lemma extract_colon_fails:
  assumes "CHR '':'' \<in> set pk"
  shows "extractFinalityProviderPkHexFromStatsId (pk @ '':'' @ s) = Inl (InvalidIdFormat (pk @ '':'' @ s))"
proof -
  from assms have "filter (\<lambda>x. x = CHR '':'') pk \<noteq> []"
    by (simp add: filter_empty_conv)
  then have "1 \<le> length (filter (\<lambda>x. x = CHR '':'') pk)"
    by (cases "filter (\<lambda>x. x = CHR '':'') pk") simp_all
  then have "3 \<le> length (Split (pk @ '':'' @ s) CHR '':'')"
    by (simp add: length_Split)
  then show ?thesis by (simp add: extractFinalityProviderPkHexFromStatsId_def)
qed

lemma extract_Inr_iff:
  "extractFinalityProviderPkHexFromStatsId (pk @ '':'' @ s) = Inr k \<and> CHR '':'' \<notin> set s
   \<longleftrightarrow> k = pk \<and> CHR '':'' \<notin> set pk \<and> CHR '':'' \<notin> set s"
  using extract_shard_id extract_colon_fails
  by (metis Inl_Inr_False sum.inject(2))

section \<open>Properties of the provider stats query\<close>


lemma sumShards_entry:
  "sumShards m ds = Inr m' \<Longrightarrow>
   m' k = sumDocs (m k) (filter (\<lambda>d. extractFinalityProviderPkHexFromStatsId (Id_stats d) = Inr k) ds)"
proof (induction ds arbitrary: m)
  case Nil
  then show ?case by simp
next
  case (Cons d ds)
  from Cons.prems obtain j where j: "extractFinalityProviderPkHexFromStatsId (Id_stats d) = Inr j"
    by (auto split: sum.splits)
  show ?case
  proof (cases "m j")
    case None
    with Cons.prems j have "sumShards (m(j \<mapsto> firstShard d)) ds = Inr m'" by simp
    from Cons.IH [OF this] show ?thesis using None j by (cases "j = k") auto
  next
    case (Some x)
    with Cons.prems j have "sumShards (m(j \<mapsto> addStats x d)) ds = Inr m'" by simp
    from Cons.IH [OF this] show ?thesis using Some j by (cases "j = k") auto
  qed
qed

lemma sumShards_Inr_all:
  "sumShards m ds = Inr m' \<Longrightarrow>
   \<forall>d \<in> set ds. \<exists>k. extractFinalityProviderPkHexFromStatsId (Id_stats d) = Inr k"
proof (induction ds arbitrary: m)
  case Nil
  then show ?case by simp
next
  case (Cons d ds)
  from Cons.prems obtain j where j: "extractFinalityProviderPkHexFromStatsId (Id_stats d) = Inr j"
    by (auto split: sum.splits)
  from Cons.prems j obtain m1 where "sumShards m1 ds = Inr m'"
    by (cases "m j") auto
  from Cons.IH [OF this] j show ?case by auto
qed

lemma sumShards_ok:
  "\<forall>d \<in> set ds. \<exists>k. extractFinalityProviderPkHexFromStatsId (Id_stats d) = Inr k \<Longrightarrow>
   \<exists>m'. sumShards m ds = Inr m'"
proof (induction ds arbitrary: m)
  case Nil
  then show ?case by simp
next
  case (Cons d ds)
  from Cons.prems obtain j where j: "extractFinalityProviderPkHexFromStatsId (Id_stats d) = Inr j"
    by auto
  from Cons.prems have rest: "\<forall>d \<in> set ds. \<exists>k. extractFinalityProviderPkHexFromStatsId (Id_stats d) = Inr k"
    by simp
  show ?case using Cons.IH [OF rest] j by (cases "m j") auto
qed

lemma shard_ids_of_one:
  "x \<in> set (map (\<lambda>i. pk @ '':'' @ Sprint (int i)) [0 ..< n]) \<longleftrightarrow>
     (\<exists>i < n. x = pk @ '':'' @ Sprint (int i))"
proof
  assume "x \<in> set (map (\<lambda>i. pk @ '':'' @ Sprint (int i)) [0 ..< n])"
  then obtain i where "i \<in> set [0 ..< n]" "x = pk @ '':'' @ Sprint (int i)"
    unfolding set_map by (elim imageE)
  then show "\<exists>i < n. x = pk @ '':'' @ Sprint (int i)"
    by (intro exI [where x = i]) simp
next
  assume "\<exists>i < n. x = pk @ '':'' @ Sprint (int i)"
  then obtain i where "i < n" "x = pk @ '':'' @ Sprint (int i)" by blast
  then show "x \<in> set (map (\<lambda>i. pk @ '':'' @ Sprint (int i)) [0 ..< n])"
    unfolding set_map by (intro image_eqI [where x = i]) simp_all
qed

lemma sharded_id_iff:
  "x \<in> set (getAllShardedFinalityProviderId cfg B) \<longleftrightarrow>
     (\<exists>pk \<in> set B. \<exists>i < nat (LogicalShardCount cfg). x = pk @ '':'' @ Sprint (int i))"
  unfolding getAllShardedFinalityProviderId_def set_concat
  using shard_ids_of_one [of x _ "nat (LogicalShardCount cfg)"]
  by (simp only: set_map UN_iff image_iff bex_simps)

lemma providerDocs_subset:
  "pk \<in> set B \<Longrightarrow> set (providerDocs cfg coll pk) \<subseteq> set (Find_in (getAllShardedFinalityProviderId cfg B) coll)"
  by (auto simp: providerDocs_def Find_in_def sharded_id_iff)

lemma batch_entry_docs:
  assumes all: "\<forall>d \<in> set (Find_in (getAllShardedFinalityProviderId cfg B) coll).
                 \<exists>k. extractFinalityProviderPkHexFromStatsId (Id_stats d) = Inr k"
  shows "filter (\<lambda>d. extractFinalityProviderPkHexFromStatsId (Id_stats d) = Inr k)
           (Find_in (getAllShardedFinalityProviderId cfg B) coll) =
         (if k \<in> set B then providerDocs cfg coll k else [])"
proof -
  have eq: "(Id_stats d \<in> set (getAllShardedFinalityProviderId cfg B) \<and>
             extractFinalityProviderPkHexFromStatsId (Id_stats d) = Inr k) \<longleftrightarrow>
            (k \<in> set B \<and> Id_stats d \<in> set (getAllShardedFinalityProviderId cfg [k]))"
    if d: "d \<in> set coll" for d
  proof
    assume a: "Id_stats d \<in> set (getAllShardedFinalityProviderId cfg B) \<and>
             extractFinalityProviderPkHexFromStatsId (Id_stats d) = Inr k"
    then obtain pk i where pk: "pk \<in> set B" "i < nat (LogicalShardCount cfg)"
      "Id_stats d = pk @ '':'' @ Sprint (int i)"
      by (auto simp: sharded_id_iff)
    from a pk(3) have "k = pk"
      using extract_Inr_iff [of pk "Sprint (int i)" k] Sprint_nat_no_colon [of i] by simp
    with pk show "k \<in> set B \<and> Id_stats d \<in> set (getAllShardedFinalityProviderId cfg [k])"
      by (auto simp: sharded_id_iff)
  next
    assume a: "k \<in> set B \<and> Id_stats d \<in> set (getAllShardedFinalityProviderId cfg [k])"
    then obtain i where i: "i < nat (LogicalShardCount cfg)" "Id_stats d = k @ '':'' @ Sprint (int i)"
      by (auto simp: sharded_id_iff)
    with a have mem: "Id_stats d \<in> set (getAllShardedFinalityProviderId cfg B)"
      by (auto simp: sharded_id_iff)
    with d all obtain k' where "extractFinalityProviderPkHexFromStatsId (Id_stats d) = Inr k'"
      by (auto simp: Find_in_def)
    with i(2) have "extractFinalityProviderPkHexFromStatsId (Id_stats d) = Inr k"
      using extract_Inr_iff [of k "Sprint (int i)" k'] Sprint_nat_no_colon [of i] by simp
    with mem show "Id_stats d \<in> set (getAllShardedFinalityProviderId cfg B) \<and>
             extractFinalityProviderPkHexFromStatsId (Id_stats d) = Inr k" by simp
  qed
  have "filter (\<lambda>d. extractFinalityProviderPkHexFromStatsId (Id_stats d) = Inr k)
           (Find_in (getAllShardedFinalityProviderId cfg B) coll) =
        filter (\<lambda>d. k \<in> set B \<and> Id_stats d \<in> set (getAllShardedFinalityProviderId cfg [k])) coll"
    unfolding Find_in_def filter_filter
    by (rule filter_cong [OF refl]) (use eq in blast)
  then show ?thesis by (simp add: providerDocs_def Find_in_def)
qed


lemma findBatches_done:
  "\<not> i < int (length pks) \<Longrightarrow> findBatches cfg env coll pks i m = Some (Inr m)"
  by (subst findBatches.simps) simp

lemma batch_slice:
  assumes "1 \<le> bs" and "0 \<le> i" and "i < int (length pks)"
  shows "take (nat ((if i + bs > int (length pks) then int (length pks) else i + bs) - i))
           (drop (nat i) pks) = take (nat bs) (drop (nat i) pks)"
proof (cases "i + bs > int (length pks)")
  case True
  then have "length (drop (nat i) pks) \<le> nat bs" using assms by simp
  moreover have "length (drop (nat i) pks) \<le> nat (int (length pks) - i)" using assms by simp
  ultimately show ?thesis using True by simp
next
  case False
  then show ?thesis by simp
qed

lemma findBatches_step:
  assumes "1 \<le> DbBatchSizeLimit cfg" and "0 \<le> i" and "i < int (length pks)"
  shows "findBatches cfg env coll pks i m =
           (if findErr env i then Some (Inl DriverError)
            else if cursorErr env i then Some (Inl DriverError)
            else (case sumShards m
                         (Find_in (getAllShardedFinalityProviderId cfg
                                     (take (nat (DbBatchSizeLimit cfg)) (drop (nat i) pks))) coll) of
                    Inl e \<Rightarrow> Some (Inl e)
                  | Inr m' \<Rightarrow> findBatches cfg env coll pks (i + DbBatchSizeLimit cfg) m'))"
proof -
  have notless: "\<not> (if i + DbBatchSizeLimit cfg > int (length pks) then int (length pks)
                    else i + DbBatchSizeLimit cfg) < i"
    using assms by simp
  show ?thesis
    apply (subst findBatches.simps)
    apply (simp only: assms(3) if_True Let_def notless if_False batch_slice [OF assms])
    done
qed


lemma batch_docs_of_provider:
  assumes "d \<in> set (Find_in (getAllShardedFinalityProviderId cfg B) coll)"
  shows "\<exists>pk \<in> set B. d \<in> set (providerDocs cfg coll pk)"
proof -
  from assms have d: "d \<in> set coll" and "Id_stats d \<in> set (getAllShardedFinalityProviderId cfg B)"
    by (auto simp: Find_in_def)
  then obtain pk i where "pk \<in> set B" "i < nat (LogicalShardCount cfg)"
    "Id_stats d = pk @ '':'' @ Sprint (int i)"
    unfolding sharded_id_iff by blast
  then have "pk \<in> set B \<and> Id_stats d \<in> set (getAllShardedFinalityProviderId cfg [pk])"
    unfolding sharded_id_iff by auto
  with d show ?thesis by (auto simp: providerDocs_def Find_in_def)
qed

lemma findBatches_loop:
  assumes bs: "1 \<le> DbBatchSizeLimit cfg" and i: "0 \<le> i"
  shows "\<exists>r. findBatches cfg env coll pks i m = Some r \<and>
     (\<forall>m'. r = Inr m' \<longrightarrow>
         (\<forall>pk \<in> set (drop (nat i) pks). \<forall>d \<in> set (providerDocs cfg coll pk). splits d) \<and>
         (distinct (drop (nat i) pks) \<longrightarrow>
            (\<forall>k. m' k = (if k \<in> set (drop (nat i) pks)
                           then sumDocs (m k) (providerDocs cfg coll k) else m k)))) \<and>
     ((\<forall>j. \<not> findErr env j \<and> \<not> cursorErr env j) \<and>
      (\<forall>pk \<in> set (drop (nat i) pks). \<forall>d \<in> set (providerDocs cfg coll pk). splits d) \<longrightarrow>
        (\<exists>m'. r = Inr m'))"
  using i
proof (induction "length pks - nat i" arbitrary: i m rule: less_induct)
  case less
  let ?b = "DbBatchSizeLimit cfg"
  show ?case
  proof (cases "i < int (length pks)")
    case False
    then have "drop (nat i) pks = []" by simp
    with findBatches_done [OF False] show ?thesis by simp
  next
    case True
    let ?B = "take (nat ?b) (drop (nat i) pks)"
    let ?rest = "drop (nat (i + ?b)) pks"
    let ?docs = "Find_in (getAllShardedFinalityProviderId cfg ?B) coll"
    note step = findBatches_step [OF bs less.prems True, of env coll m]
    have rest: "?rest = drop (nat ?b) (drop (nat i) pks)"
      using bs less.prems by (simp add: nat_add_distrib add.commute)
    have split: "drop (nat i) pks = ?B @ ?rest"
      by (simp only: rest append_take_drop_id)
    have setsplit: "set (drop (nat i) pks) = set ?B \<union> set ?rest"
      using arg_cong [OF split, of set] by (simp only: set_append)
    have smaller: "length pks - nat (i + ?b) < length pks - nat i"
      using bs less.prems True by (simp add: nat_add_distrib)
    have nonneg: "0 \<le> i + ?b" using bs less.prems by simp
    show ?thesis
    proof (cases "findErr env i \<or> cursorErr env i")
      case True
      then have "findBatches cfg env coll pks i m = Some (Inl DriverError)"
        using step by auto
      with True show ?thesis by auto
    next
      case False
      show ?thesis
      proof (cases "sumShards m ?docs")
        case (Inl e)
        then have r: "findBatches cfg env coll pks i m = Some (Inl e)"
          using step False by simp
        have "\<not> (\<forall>pk \<in> set (drop (nat i) pks). \<forall>d \<in> set (providerDocs cfg coll pk). splits d)"
        proof
          assume fine: "\<forall>pk \<in> set (drop (nat i) pks). \<forall>d \<in> set (providerDocs cfg coll pk). splits d"
          have "\<forall>d \<in> set ?docs. splits d"
          proof
            fix d assume "d \<in> set ?docs"
            from batch_docs_of_provider [OF this] obtain pk where
              "pk \<in> set ?B" "d \<in> set (providerDocs cfg coll pk)" by blast
            with fine setsplit show "splits d" by blast
          qed
          from sumShards_ok [OF this, of m] Inl show False by simp
        qed
        with r show ?thesis by simp
      next
        case (Inr m1)
        then have r: "findBatches cfg env coll pks i m =
                      findBatches cfg env coll pks (i + ?b) m1"
          using step False by simp
        from less.hyps [OF smaller nonneg, of m1] obtain r' where
          r': "findBatches cfg env coll pks (i + ?b) m1 = Some r'"
          and ok: "\<And>m'. r' = Inr m' \<Longrightarrow>
                 (\<forall>pk \<in> set ?rest. \<forall>d \<in> set (providerDocs cfg coll pk). splits d) \<and>
                 (distinct ?rest \<longrightarrow>
                    (\<forall>k. m' k = (if k \<in> set ?rest
                                   then sumDocs (m1 k) (providerDocs cfg coll k) else m1 k)))"
          and succ: "(\<forall>j. \<not> findErr env j \<and> \<not> cursorErr env j) \<and>
                 (\<forall>pk \<in> set ?rest. \<forall>d \<in> set (providerDocs cfg coll pk). splits d) \<longrightarrow>
                 (\<exists>m'. r' = Inr m')"
          by blast
        have batchfine: "\<forall>d \<in> set ?docs. splits d"
          by (rule sumShards_Inr_all [OF Inr])
        have m1: "m1 k = sumDocs (m k) (if k \<in> set ?B then providerDocs cfg coll k else [])" for k
          using sumShards_entry [OF Inr, of k] batch_entry_docs [OF batchfine, of k] by simp
        have part1: "\<forall>pk \<in> set (drop (nat i) pks). \<forall>d \<in> set (providerDocs cfg coll pk). splits d"
          if "r' = Inr m'" for m'
        proof (intro ballI)
          fix pk d
          assume pk: "pk \<in> set (drop (nat i) pks)" and d: "d \<in> set (providerDocs cfg coll pk)"
          from pk setsplit consider "pk \<in> set ?B" | "pk \<in> set ?rest" by blast
          then show "splits d"
          proof cases
            case 1
            with providerDocs_subset [OF 1, of cfg coll] d batchfine show ?thesis by blast
          next
            case 2
            with ok [OF that] d show ?thesis by blast
          qed
        qed
        have part2: "m' k = (if k \<in> set (drop (nat i) pks)
                           then sumDocs (m k) (providerDocs cfg coll k) else m k)"
          if eq: "r' = Inr m'" and dist: "distinct (drop (nat i) pks)" for m' k
        proof -
          from dist have "distinct (?B @ ?rest)"
            using arg_cong [OF split, of distinct] by simp
          then have dr: "distinct ?rest" and disj: "set ?B \<inter> set ?rest = {}"
            by (simp_all only: distinct_append)
          from ok [OF eq] dr have m': "m' k = (if k \<in> set ?rest
                                   then sumDocs (m1 k) (providerDocs cfg coll k) else m1 k)"
            by blast
          show ?thesis
          proof (cases "k \<in> set ?B")
            case True
            with disj have "k \<notin> set ?rest" by blast
            with m' m1 [of k] True setsplit show ?thesis by simp
          next
            case False
            with m' m1 [of k] setsplit show ?thesis by simp
          qed
        qed
        have part3: "\<exists>m'. r' = Inr m'"
          if "\<forall>j. \<not> findErr env j \<and> \<not> cursorErr env j"
            and "\<forall>pk \<in> set (drop (nat i) pks). \<forall>d \<in> set (providerDocs cfg coll pk). splits d"
          using succ that setsplit by blast
        from r r' part1 part2 part3 show ?thesis by auto
      qed
    qed
  qed
qed


lemma sumDocs_Some: "sumDocs (Some x) ds = Some (foldl addStats x ds)"
  by (induction ds arbitrary: x) simp_all

lemma sumDocs_None:
  "sumDocs None ds =
     (if ds = [] then None
      else Some \<lparr>Id_stats = [],
                 ActiveTvl = sum_list (map ActiveTvl ds),
                 TotalTvl = sum_list (map TotalTvl ds),
                 ActiveDelegations = sum_list (map ActiveDelegations ds),
                 TotalDelegations = sum_list (map TotalDelegations ds)\<rparr>)"
  by (cases ds) (simp_all add: sumDocs_Some foldl_addStats firstShard_def)

lemma providerSum_sumDocs: "providerSum cfg coll pk = sumDocs None (providerDocs cfg coll pk)"
  by (simp add: providerSum_def sumDocs_None Let_def)

lemma providerDocs_split:
  assumes "CHR '':'' \<notin> set pk" and "d \<in> set (providerDocs cfg coll pk)"
  shows "extractFinalityProviderPkHexFromStatsId (Id_stats d) = Inr pk"
proof -
  from assms(2) obtain i where "Id_stats d = pk @ '':'' @ Sprint (int i)"
    by (auto simp: providerDocs_def Find_in_def sharded_id_iff)
  with extract_shard_id [OF assms(1) Sprint_nat_no_colon [of i]] show ?thesis by simp
qed

lemma providerDocs_colon:
  assumes "CHR '':'' \<in> set pk" and "d \<in> set (providerDocs cfg coll pk)"
  shows "\<not> splits d"
proof -
  from assms(2) obtain i where "Id_stats d = pk @ '':'' @ Sprint (int i)"
    by (auto simp: providerDocs_def Find_in_def sharded_id_iff)
  with extract_colon_fails [OF assms(1), of "Sprint (int i)"] show ?thesis by simp
qed

lemma findBatches_from_start:
  assumes "1 \<le> DbBatchSizeLimit cfg"
  shows "\<exists>r. findBatches cfg env coll pks 0 Map.empty = Some r \<and>
     (\<forall>m'. r = Inr m' \<longrightarrow>
         (\<forall>pk \<in> set pks. \<forall>d \<in> set (providerDocs cfg coll pk). splits d) \<and>
         (distinct pks \<longrightarrow>
            (\<forall>k. m' k = (if k \<in> set pks then sumDocs None (providerDocs cfg coll k) else None)))) \<and>
     ((\<forall>j. \<not> findErr env j \<and> \<not> cursorErr env j) \<and>
      (\<forall>pk \<in> set pks. \<forall>d \<in> set (providerDocs cfg coll pk). splits d) \<longrightarrow>
        (\<exists>m'. r = Inr m'))"
  using findBatches_loop [OF assms, of 0 env coll pks Map.empty] by simp


text \<open>
  C8 (as amended). For a list of provider keys without repetitions and a batch size of
  at least one, \<open>FindFinalityProviderStatsByPkHex\<close> returns. When it returns a map, every
  requested key with a stored shard document maps to the sums of the four counters
  (in \<open>int64\<close> arithmetic) over exactly that provider's shard keys, and every other key has
  no entry. It returns a map when the driver does not fail and no requested key contains
  a colon. The map is the same for every batch size of at least one.
\<close>

theorem FindFinalityProviderStatsByPkHex_sums:
  assumes bs: "1 \<le> DbBatchSizeLimit cfg" and dist: "distinct pkHex"
  shows "\<exists>r. FindFinalityProviderStatsByPkHex cfg env db pkHex = Some r \<and>
           (\<forall>m. r = Inr m \<longrightarrow>
              m = (\<lambda>pk. if pk \<in> set pkHex
                        then providerSum cfg (FinalityProviderStatsCollection db) pk
                        else None)) \<and>
           ((\<forall>j. \<not> findErr env j \<and> \<not> cursorErr env j) \<and>
            (\<forall>pk \<in> set pkHex. CHR '':'' \<notin> set pk) \<longrightarrow> (\<exists>m. r = Inr m)) \<and>
           (\<forall>batchSize env' m m'.
              1 \<le> batchSize \<and> r = Inr m \<and>
              FindFinalityProviderStatsByPkHex (cfg\<lparr>DbBatchSizeLimit := batchSize\<rparr>) env' db pkHex =
                Some (Inr m') \<longrightarrow> m' = m)"
proof -
  let ?coll = "FinalityProviderStatsCollection db"
  let ?spec = "\<lambda>c pk. if pk \<in> set pkHex then providerSum c ?coll pk else None"
  have closed: "\<exists>r. findBatches c e ?coll pkHex 0 Map.empty = Some r \<and>
           (\<forall>m. r = Inr m \<longrightarrow> m = ?spec c) \<and>
           ((\<forall>j. \<not> findErr e j \<and> \<not> cursorErr e j) \<and>
            (\<forall>pk \<in> set pkHex. CHR '':'' \<notin> set pk) \<longrightarrow> (\<exists>m. r = Inr m))"
    if c: "1 \<le> DbBatchSizeLimit c" for c e
  proof -
    from findBatches_from_start [OF c, of e ?coll pkHex] obtain r where
      r: "findBatches c e ?coll pkHex 0 Map.empty = Some r"
      and ok': "\<forall>m'. r = Inr m' \<longrightarrow>
         (\<forall>pk \<in> set pkHex. \<forall>d \<in> set (providerDocs c ?coll pk). splits d) \<and>
         (distinct pkHex \<longrightarrow>
            (\<forall>k. m' k = (if k \<in> set pkHex then sumDocs None (providerDocs c ?coll k) else None)))"
      and succ: "(\<forall>j. \<not> findErr e j \<and> \<not> cursorErr e j) \<and>
                 (\<forall>pk \<in> set pkHex. \<forall>d \<in> set (providerDocs c ?coll pk). splits d) \<longrightarrow>
                 (\<exists>m'. r = Inr m')"
      by blast
    have ok: "\<forall>k. m' k = (if k \<in> set pkHex then sumDocs None (providerDocs c ?coll k) else None)"
      if "r = Inr m'" "distinct pkHex" for m'
      using ok' that by blast
    have a: "m = ?spec c" if "r = Inr m" for m
      using ok [OF that dist] by (intro ext) (simp add: providerSum_sumDocs)
    have b: "\<exists>m. r = Inr m"
      if "\<forall>j. \<not> findErr e j \<and> \<not> cursorErr e j" "\<forall>pk \<in> set pkHex. CHR '':'' \<notin> set pk"
    proof -
      have "\<forall>pk \<in> set pkHex. \<forall>d \<in> set (providerDocs c ?coll pk). splits d"
        using that(2) providerDocs_split by blast
      with succ that(1) show ?thesis by blast
    qed
    from r a b show ?thesis by blast
  qed
  from closed [OF bs, of env] obtain r where
    r: "findBatches cfg env ?coll pkHex 0 Map.empty = Some r"
    and a: "\<And>m. r = Inr m \<Longrightarrow> m = ?spec cfg"
    and b: "(\<forall>j. \<not> findErr env j \<and> \<not> cursorErr env j) \<and>
            (\<forall>pk \<in> set pkHex. CHR '':'' \<notin> set pk) \<longrightarrow> (\<exists>m. r = Inr m)"
    by blast
  have "providerSum (cfg\<lparr>DbBatchSizeLimit := batchSize\<rparr>) ?coll pk = providerSum cfg ?coll pk"
    for batchSize pk
    by (simp add: providerSum_def providerDocs_def getAllShardedFinalityProviderId_def)
  then have same: "?spec (cfg\<lparr>DbBatchSizeLimit := batchSize\<rparr>) = ?spec cfg" for batchSize
    by (simp only:)
  have c: "m' = m"
    if "1 \<le> batchSize" "r = Inr m"
      "findBatches (cfg\<lparr>DbBatchSizeLimit := batchSize\<rparr>) env' ?coll pkHex 0 Map.empty =
         Some (Inr m')" for batchSize env' m m'
  proof -
    have "1 \<le> DbBatchSizeLimit (cfg\<lparr>DbBatchSizeLimit := batchSize\<rparr>)" using that(1) by simp
    from closed [OF this, of env'] obtain r' where
      "findBatches (cfg\<lparr>DbBatchSizeLimit := batchSize\<rparr>) env' ?coll pkHex 0 Map.empty = Some r'"
      "\<forall>m. r' = Inr m \<longrightarrow> m = ?spec (cfg\<lparr>DbBatchSizeLimit := batchSize\<rparr>)"
      by blast
    with that(3) have "m' = ?spec (cfg\<lparr>DbBatchSizeLimit := batchSize\<rparr>)" by simp
    with a [OF that(2)] same show ?thesis by simp
  qed
  show ?thesis
    unfolding FindFinalityProviderStatsByPkHex_def
  proof (intro exI [where x = r] conjI allI impI)
    show "findBatches cfg env ?coll pkHex 0 Map.empty = Some r" by (rule r)
  next
    fix m assume "r = Inr m"
    then show "m = ?spec cfg" by (rule a)
  next
    assume "(\<forall>j. \<not> findErr env j \<and> \<not> cursorErr env j) \<and>
            (\<forall>pk \<in> set pkHex. CHR '':'' \<notin> set pk)"
    with b show "\<exists>m. r = Inr m" by (rule mp)
  next
    fix batchSize env' m m'
    assume "1 \<le> batchSize \<and> r = Inr m \<and>
            findBatches (cfg\<lparr>DbBatchSizeLimit := batchSize\<rparr>) env' ?coll pkHex 0 Map.empty =
              Some (Inr m')"
    then show "m' = m" using c by blast
  qed
qed

theorem FindFinalityProviderStatsByPkHex_sums_witness:
  "entryOf (FindFinalityProviderStatsByPkHex (batchesOf 1) quietRead providerDb
              [''a'', ''b'', ''c'']) ''a'' =
     Some \<lparr>Id_stats = [], ActiveTvl = 4, TotalTvl = 5, ActiveDelegations = 2,
           TotalDelegations = 3\<rparr>
   \<and> entryOf (FindFinalityProviderStatsByPkHex (batchesOf 1) quietRead providerDb
              [''a'', ''b'', ''c'']) ''c'' = None
   \<and> FindFinalityProviderStatsByPkHex (batchesOf 2) quietRead providerDb [''a'', ''b'', ''c''] =
       FindFinalityProviderStatsByPkHex (batchesOf 1) quietRead providerDb [''a'', ''b'', ''c'']"
proof -
  let ?pks = "[''a'', ''b'', ''c'']"
  have one: "1 \<le> DbBatchSizeLimit (batchesOf 1)" and two: "1 \<le> DbBatchSizeLimit (batchesOf 2)"
    by (simp_all add: batchesOf_def)
  have dist: "distinct ?pks" by simp
  have quiet: "\<forall>j. \<not> findErr quietRead j \<and> \<not> cursorErr quietRead j"
    by (simp add: quietRead_def)
  have free: "\<forall>pk \<in> set ?pks. CHR '':'' \<notin> set pk" by simp
  have cfg: "(batchesOf 1)\<lparr>DbBatchSizeLimit := 2\<rparr> = batchesOf 2"
    by (simp add: batchesOf_def)
  from FindFinalityProviderStatsByPkHex_sums [OF one dist, of quietRead providerDb] quiet free
  obtain m where
    r1: "FindFinalityProviderStatsByPkHex (batchesOf 1) quietRead providerDb ?pks = Some (Inr m)"
    and m: "m = (\<lambda>pk. if pk \<in> set ?pks
                      then providerSum (batchesOf 1) (FinalityProviderStatsCollection providerDb) pk
                      else None)"
    and indep: "\<forall>batchSize env' m'. 1 \<le> batchSize \<and>
           FindFinalityProviderStatsByPkHex ((batchesOf 1)\<lparr>DbBatchSizeLimit := batchSize\<rparr>) env'
             providerDb ?pks = Some (Inr m') \<longrightarrow> m' = m"
    by blast
  from FindFinalityProviderStatsByPkHex_sums [OF two dist, of quietRead providerDb] quiet free
  obtain m' where
    r2: "FindFinalityProviderStatsByPkHex (batchesOf 2) quietRead providerDb ?pks = Some (Inr m')"
    by blast
  from r2 have "1 \<le> (2 :: int) \<and>
      FindFinalityProviderStatsByPkHex ((batchesOf 1)\<lparr>DbBatchSizeLimit := 2\<rparr>) quietRead
        providerDb ?pks = Some (Inr m')"
    by (simp add: cfg)
  with indep have "m' = m" by blast
  with r1 r2 have same: "FindFinalityProviderStatsByPkHex (batchesOf 2) quietRead providerDb ?pks =
       FindFinalityProviderStatsByPkHex (batchesOf 1) quietRead providerDb ?pks"
    by simp
  have a: "providerSum (batchesOf 1) (FinalityProviderStatsCollection providerDb) ''a'' =
     Some \<lparr>Id_stats = [], ActiveTvl = 4, TotalTvl = 5, ActiveDelegations = 2,
           TotalDelegations = 3\<rparr>"
    by (simp add: providerSum_def providerDocs_def Find_in_def getAllShardedFinalityProviderId_def
          batchesOf_def providerDb_def Sprint_def decimal.simps digit_def upt_rec)
  have c: "providerSum (batchesOf 1) (FinalityProviderStatsCollection providerDb) ''c'' = None"
    by (simp add: providerSum_def providerDocs_def Find_in_def getAllShardedFinalityProviderId_def
          batchesOf_def providerDb_def Sprint_def decimal.simps digit_def upt_rec)
  from r1 m a c same show ?thesis by (simp add: entryOf_def)
qed

text \<open>
  With the key \<open>a\<close> twice in the list, a batch size of one adds the provider's documents
  to its entry twice and a batch size of two adds them once; and a requested key without
  a stored document has no entry in the map.
\<close>

theorem FindFinalityProviderStatsByPkHex_batches_differ:
  "entryOf (FindFinalityProviderStatsByPkHex (batchesOf 1) quietRead providerDb [''a'', ''a''])
     ''a'' =
     Some \<lparr>Id_stats = [], ActiveTvl = 8, TotalTvl = 10, ActiveDelegations = 4,
           TotalDelegations = 6\<rparr>
   \<and> entryOf (FindFinalityProviderStatsByPkHex (batchesOf 2) quietRead providerDb [''a'', ''a''])
       ''a'' =
       Some \<lparr>Id_stats = [], ActiveTvl = 4, TotalTvl = 5, ActiveDelegations = 2,
             TotalDelegations = 3\<rparr>
   \<and> returnsMap (FindFinalityProviderStatsByPkHex (batchesOf 1) quietRead providerDb [''c''])
   \<and> entryOf (FindFinalityProviderStatsByPkHex (batchesOf 1) quietRead providerDb [''c''])
       ''c'' = None"
  by (simp add: entryOf_def returnsMap_def FindFinalityProviderStatsByPkHex_def
        findBatches_step findBatches_done batchesOf_def quietRead_def providerDb_def
        getAllShardedFinalityProviderId_def Find_in_def extractFinalityProviderPkHexFromStatsId_def
        addStats_def firstShard_def Sprint_def decimal.simps digit_def upt_rec)

text \<open>
  C10 (as amended). For a provider key without a colon, extracting the key from any of
  its shard ids, and from the id an update generates, returns the key. For a key with a
  colon the extraction fails with the invalid-id-format error. A query for a list that
  holds such a key returns an error whenever the collection stores a shard document of
  that key (the batch size being at least one).
\<close>

theorem stats_id_round_trip:
  "(CHR '':'' \<notin> set pk \<longrightarrow>
      extractFinalityProviderPkHexFromStatsId (pk @ '':'' @ Sprint (int i)) = Inr pk \<and>
      (\<forall>x \<in> set (getAllShardedFinalityProviderId cfg [pk]).
         extractFinalityProviderPkHexFromStatsId x = Inr pk) \<and>
      (\<forall>draw sid. generateFinalityProviderStatsId cfg draw pk = Inr sid \<longrightarrow>
         extractFinalityProviderPkHexFromStatsId sid = Inr pk))
   \<and> (CHR '':'' \<in> set pk \<longrightarrow>
        extractFinalityProviderPkHexFromStatsId (pk @ '':'' @ s) =
          Inl (InvalidIdFormat (pk @ '':'' @ s)) \<and>
        (pk \<in> set pkHex \<and> 1 \<le> DbBatchSizeLimit cfg \<and>
         providerDocs cfg (FinalityProviderStatsCollection db) pk \<noteq> [] \<longrightarrow>
           (\<exists>e. FindFinalityProviderStatsByPkHex cfg env db pkHex = Some (Inl e))))"
proof (intro conjI impI)
  assume free: "CHR '':'' \<notin> set pk"
  show one: "extractFinalityProviderPkHexFromStatsId (pk @ '':'' @ Sprint (int i)) = Inr pk" for i
    by (rule extract_shard_id [OF free Sprint_nat_no_colon])
  show "\<forall>x \<in> set (getAllShardedFinalityProviderId cfg [pk]).
         extractFinalityProviderPkHexFromStatsId x = Inr pk"
  proof
    fix x assume "x \<in> set (getAllShardedFinalityProviderId cfg [pk])"
    then obtain i where "x = pk @ '':'' @ Sprint (int i)"
      unfolding sharded_id_iff by auto
    with one show "extractFinalityProviderPkHexFromStatsId x = Inr pk" by simp
  qed
  show "\<forall>draw sid. generateFinalityProviderStatsId cfg draw pk = Inr sid \<longrightarrow>
         extractFinalityProviderPkHexFromStatsId sid = Inr pk"
  proof (intro allI impI)
    fix draw sid
    assume "generateFinalityProviderStatsId cfg draw pk = Inr sid"
    then have "sid \<in> set (getAllShardedFinalityProviderId cfg [pk])"
      by (rule generateFinalityProviderStatsId_shard)
    then obtain i where "sid = pk @ '':'' @ Sprint (int i)"
      unfolding sharded_id_iff by auto
    with one show "extractFinalityProviderPkHexFromStatsId sid = Inr pk" by simp
  qed
next
  assume colon: "CHR '':'' \<in> set pk"
  show "extractFinalityProviderPkHexFromStatsId (pk @ '':'' @ s) =
          Inl (InvalidIdFormat (pk @ '':'' @ s))"
    by (rule extract_colon_fails [OF colon])
  assume a: "pk \<in> set pkHex \<and> 1 \<le> DbBatchSizeLimit cfg \<and>
         providerDocs cfg (FinalityProviderStatsCollection db) pk \<noteq> []"
  then obtain d where d: "d \<in> set (providerDocs cfg (FinalityProviderStatsCollection db) pk)"
    by (cases "providerDocs cfg (FinalityProviderStatsCollection db) pk") auto
  from a have bs: "1 \<le> DbBatchSizeLimit cfg" by simp
  from findBatches_from_start [OF bs, of env "FinalityProviderStatsCollection db" pkHex]
  obtain r where r: "findBatches cfg env (FinalityProviderStatsCollection db) pkHex 0 Map.empty = Some r"
    and ok: "\<forall>m'. r = Inr m' \<longrightarrow>
       (\<forall>pk \<in> set pkHex. \<forall>d \<in> set (providerDocs cfg (FinalityProviderStatsCollection db) pk). splits d)"
    by blast
  have "\<not> (\<exists>m'. r = Inr m')"
    using ok a d providerDocs_colon [OF colon d] by blast
  then obtain e where "r = Inl e" by (cases r) auto
  with r show "\<exists>e. FindFinalityProviderStatsByPkHex cfg env db pkHex = Some (Inl e)"
    by (simp add: FindFinalityProviderStatsByPkHex_def)
qed

theorem stats_id_round_trip_witness:
  "extractFinalityProviderPkHexFromStatsId (''ab'' @ '':'' @ Sprint (int 1)) = Inr ''ab''
   \<and> generateFinalityProviderStatsId (batchesOf 1) 5 ''ab'' = Inr ''ab:1''
   \<and> extractFinalityProviderPkHexFromStatsId ''ab:1'' = Inr ''ab''
   \<and> extractFinalityProviderPkHexFromStatsId (''a:b'' @ '':'' @ ''0'') =
       Inl (InvalidIdFormat ''a:b:0'')
   \<and> (\<exists>e. FindFinalityProviderStatsByPkHex (batchesOf 1) quietRead colonDb [''a'', ''a:b''] =
            Some (Inl e))"
proof -
  have free: "CHR '':'' \<notin> set ''ab''" and colon: "CHR '':'' \<in> set ''a:b''"
    by simp_all
  have gen: "generateFinalityProviderStatsId (batchesOf 1) 5 ''ab'' = Inr ''ab:1''"
    by (simp add: generateFinalityProviderStatsId_def Intn_def batchesOf_def Sprint_def
          decimal.simps digit_def)
  have stored: "''a:b'' \<in> set [''a'', ''a:b''] \<and> 1 \<le> DbBatchSizeLimit (batchesOf 1) \<and>
      providerDocs (batchesOf 1) (FinalityProviderStatsCollection colonDb) ''a:b'' \<noteq> []"
    by (simp add: providerDocs_def Find_in_def getAllShardedFinalityProviderId_def batchesOf_def
          colonDb_def Sprint_def decimal.simps digit_def upt_rec)
  note t1 = stats_id_round_trip [where pk = "''ab''" and i = 1 and cfg = "batchesOf 1"]
  note t2 = stats_id_round_trip [where pk = "''a:b''" and s = "''0''" and cfg = "batchesOf 1"
      and pkHex = "[''a'', ''a:b'']" and db = colonDb and env = quietRead]
  from t1 free have a: "extractFinalityProviderPkHexFromStatsId (''ab'' @ '':'' @ Sprint (int 1)) =
      Inr ''ab''"
    by blast
  from t1 free gen have b: "extractFinalityProviderPkHexFromStatsId ''ab:1'' = Inr ''ab''"
    by blast
  from t2 colon have c: "extractFinalityProviderPkHexFromStatsId (''a:b'' @ '':'' @ ''0'') =
      Inl (InvalidIdFormat (''a:b'' @ '':'' @ ''0''))"
    by blast
  from t2 colon stored have d:
    "\<exists>e. FindFinalityProviderStatsByPkHex (batchesOf 1) quietRead colonDb [''a'', ''a:b''] =
            Some (Inl e)"
    by blast
  from a gen b c d show ?thesis by simp
qed

text \<open>
  The key \<open>a:b\<close> contains a colon, and on a collection without a shard document of it
  the query for it returns a map, with no entry for the key.
\<close>

theorem FindFinalityProviderStatsByPkHex_colon_key_succeeds:
  "CHR '':'' \<in> set ''a:b''
   \<and> returnsMap (FindFinalityProviderStatsByPkHex (batchesOf 1) quietRead providerDb [''a:b''])
   \<and> entryOf (FindFinalityProviderStatsByPkHex (batchesOf 1) quietRead providerDb [''a:b''])
       ''a:b'' = None"
  by (simp add: entryOf_def returnsMap_def FindFinalityProviderStatsByPkHex_def
        findBatches_step findBatches_done batchesOf_def quietRead_def providerDb_def
        getAllShardedFinalityProviderId_def Find_in_def Sprint_def decimal.simps digit_def upt_rec)

section \<open>Properties of the delegation services\<close>

text \<open>
  C5. Whatever the store's insert does, \<open>SaveActiveStakingDelegation\<close> returns nil when the
  store reports no error or a duplicate-key error, and an internal-service error when
  the store reports any other error, and only then; the delegation collection is what
  the store left. With the insert of the spec, a creation for a hash that exists leaves
  the collection unchanged and returns nil, so delivering a creation a second time is a
  no-op and not an error; a failure of the driver is returned as an internal-service
  error.
\<close>

theorem SaveActiveStakingDelegation_duplicate_is_success:
  "(\<forall>err coll'. dbSave coll a = (Some err, coll') \<and> IsDuplicateKeyError err \<longrightarrow>
       SaveActiveStakingDelegation dbSave coll a = (None, coll'))
   \<and> (\<forall>err coll'. dbSave coll a = (Some err, coll') \<and> \<not> IsDuplicateKeyError err \<longrightarrow>
         SaveActiveStakingDelegation dbSave coll a = (Some (NewInternalServiceError err), coll'))
   \<and> (\<forall>coll'. dbSave coll a = (None, coll') \<longrightarrow>
         SaveActiveStakingDelegation dbSave coll a = (None, coll'))
   \<and> (fst (SaveActiveStakingDelegation dbSave coll a) \<noteq> None \<longleftrightarrow>
        (\<exists>err. fst (dbSave coll a) = Some err \<and> \<not> IsDuplicateKeyError err))
   \<and> ((\<exists>d \<in> set coll. StakingTxHashHex d = txHashHex a) \<longrightarrow>
         SaveActiveStakingDelegation (createActive False) coll a = (None, coll))
   \<and> SaveActiveStakingDelegation (createActive False)
         (snd (SaveActiveStakingDelegation (createActive False) coll a)) a =
       (None, snd (SaveActiveStakingDelegation (createActive False) coll a))
   \<and> SaveActiveStakingDelegation (createActive True) coll a =
       (Some (NewInternalServiceError DriverError), coll)"
proof (intro conjI allI impI)
  fix err coll'
  assume "dbSave coll a = (Some err, coll') \<and> IsDuplicateKeyError err"
  then show "SaveActiveStakingDelegation dbSave coll a = (None, coll')"
    by (simp add: SaveActiveStakingDelegation_def)
next
  fix err coll'
  assume "dbSave coll a = (Some err, coll') \<and> \<not> IsDuplicateKeyError err"
  then show "SaveActiveStakingDelegation dbSave coll a = (Some (NewInternalServiceError err), coll')"
    by (simp add: SaveActiveStakingDelegation_def)
next
  fix coll'
  assume "dbSave coll a = (None, coll')"
  then show "SaveActiveStakingDelegation dbSave coll a = (None, coll')"
    by (simp add: SaveActiveStakingDelegation_def)
next
  show "fst (SaveActiveStakingDelegation dbSave coll a) \<noteq> None \<longleftrightarrow>
        (\<exists>err. fst (dbSave coll a) = Some err \<and> \<not> IsDuplicateKeyError err)"
    by (cases "dbSave coll a")
       (auto simp: SaveActiveStakingDelegation_def split: option.splits)
next
  assume "\<exists>d \<in> set coll. StakingTxHashHex d = txHashHex a"
  then show "SaveActiveStakingDelegation (createActive False) coll a = (None, coll)"
    by (simp add: SaveActiveStakingDelegation_def createActive_def IsDuplicateKeyError_def)
next
  have dup: "IsDuplicateKeyError (DuplicateKeyError k m)" for k m
    by (simp add: IsDuplicateKeyError_def)
  have stored: "\<exists>d \<in> set (snd (SaveActiveStakingDelegation (createActive False) coll a)).
                  StakingTxHashHex d = txHashHex a"
    by (auto simp: SaveActiveStakingDelegation_def createActive_def dup newActiveDelegation_def)
  then show "SaveActiveStakingDelegation (createActive False)
         (snd (SaveActiveStakingDelegation (createActive False) coll a)) a =
       (None, snd (SaveActiveStakingDelegation (createActive False) coll a))"
    by (simp add: SaveActiveStakingDelegation_def createActive_def dup)
next
  show "SaveActiveStakingDelegation (createActive True) coll a =
       (Some (NewInternalServiceError DriverError), coll)"
    by (simp add: SaveActiveStakingDelegation_def createActive_def IsDuplicateKeyError_def)
qed

theorem SaveActiveStakingDelegation_duplicate_is_success_witness:
  "SaveActiveStakingDelegation (createActive False) [sampleDelegation] sampleStaking =
     (None, [sampleDelegation])
   \<and> SaveActiveStakingDelegation (createActive True) [sampleDelegation] sampleStaking =
       (Some (NewInternalServiceError DriverError), [sampleDelegation])
   \<and> SaveActiveStakingDelegation (createActive False) [] sampleStaking =
       (None, [sampleDelegation])"
proof -
  have stored: "\<exists>d \<in> set [sampleDelegation]. StakingTxHashHex d = txHashHex sampleStaking"
    by (simp add: sampleDelegation_def newActiveDelegation_def)
  have dup: "createActive False [sampleDelegation] sampleStaking =
               (Some (DuplicateKeyError ''a'' ''delegation already exists''), [sampleDelegation])
             \<and> IsDuplicateKeyError (DuplicateKeyError ''a'' ''delegation already exists'')"
    by (simp add: createActive_def sampleDelegation_def newActiveDelegation_def sampleStaking_def
          IsDuplicateKeyError_def)
  have down: "createActive True [sampleDelegation] sampleStaking =
                (Some DriverError, [sampleDelegation]) \<and> \<not> IsDuplicateKeyError DriverError"
    by (simp add: createActive_def IsDuplicateKeyError_def)
  have fresh: "createActive False [] sampleStaking = (None, [sampleDelegation])"
    by (simp add: createActive_def sampleDelegation_def)
  note t1 = SaveActiveStakingDelegation_duplicate_is_success
      [where dbSave = "createActive False" and coll = "[sampleDelegation]" and a = sampleStaking]
  note t2 = SaveActiveStakingDelegation_duplicate_is_success
      [where dbSave = "createActive True" and coll = "[sampleDelegation]" and a = sampleStaking]
  note t3 = SaveActiveStakingDelegation_duplicate_is_success
      [where dbSave = "createActive False" and coll = "[]" and a = sampleStaking]
  from t1 dup stored have a: "SaveActiveStakingDelegation (createActive False) [sampleDelegation]
      sampleStaking = (None, [sampleDelegation])"
    by blast
  from t2 down have b: "SaveActiveStakingDelegation (createActive True) [sampleDelegation]
      sampleStaking = (Some (NewInternalServiceError DriverError), [sampleDelegation])"
    by blast
  from t3 fresh have c: "SaveActiveStakingDelegation (createActive False) [] sampleStaking =
      (None, [sampleDelegation])"
    by blast
  from a b c show ?thesis by simp
qed

text \<open>
  C6. \<open>DelegationsByStakerPk\<close> returns the error 400 BadRequest exactly when the store
  reports an invalid pagination token, and an internal-service error when the store
  reports any other error; with an error it returns no delegations and no token. When
  the store returns a page, it returns the public form of the page's documents, the
  page's token and no error, also when the page is empty.
\<close>

theorem DelegationsByStakerPk_outcomes:
  fixes dbFind :: "string \<Rightarrow> DelegationFilter \<Rightarrow> string \<Rightarrow> failure + DbResultMap"
  assumes store: "dbFind stakerPk (if state \<noteq> [] then \<lparr>States = [state], AfterTimestamp = 0\<rparr>
                                else \<lparr>States = [], AfterTimestamp = 0\<rparr>) pageToken = reported"
    and service: "DelegationsByStakerPk toIso dbFind stakerPk state pageToken = (delegations, token, error)"
  shows "(\<forall>err. reported = Inl err \<and> IsInvalidPaginationTokenError err \<longrightarrow>
            delegations = [] \<and> token = [] \<and>
            error = Some \<lparr>StatusCode = 400, Code = BadRequest, Err = Wrapped err\<rparr>)
       \<and> (\<forall>err. reported = Inl err \<and> \<not> IsInvalidPaginationTokenError err \<longrightarrow>
            delegations = [] \<and> token = [] \<and> error = Some (NewInternalServiceError err) \<and>
            Code (NewInternalServiceError err) = InternalServiceError)
       \<and> (\<forall>page. reported = Inr page \<longrightarrow>
            delegations = map (FromDelegationDocument toIso) (Data page) \<and>
            token = PaginationToken page \<and> error = None)
       \<and> ((\<exists>e. error = Some e \<and> StatusCode e = 400 \<and> Code e = BadRequest) \<longleftrightarrow>
          (\<exists>err. reported = Inl err \<and> IsInvalidPaginationTokenError err))
       \<and> (error \<noteq> None \<longrightarrow> delegations = [] \<and> token = [])"
  using assms
  by (cases reported)
     (auto simp: DelegationsByStakerPk_def Let_def NewError_def NewInternalServiceError_def
        StatusBadRequest_def StatusInternalServerError_def split: if_splits)

theorem DelegationsByStakerPk_outcomes_witness:
  "DelegationsByStakerPk isoStub samplePages ''s'' Active ''bad'' =
     ([], [], Some \<lparr>StatusCode = 400, Code = BadRequest,
                    Err = Wrapped (InvalidPaginationTokenError ''invalid pagination token'')\<rparr>)
   \<and> DelegationsByStakerPk isoStub samplePages ''s'' Active ''down'' =
       ([], [], Some (NewInternalServiceError DriverError))
   \<and> DelegationsByStakerPk isoStub samplePages ''s'' Active [] =
       ([FromDelegationDocument isoStub sampleDelegation], ''next'', None)
   \<and> DelegationsByStakerPk isoStub samplePages ''t'' [] [] = ([], [], None)"
proof -
  have triple: "r = (fst r, fst (snd r), snd (snd r))"
    for r :: "DelegationPublic list \<times> string \<times> Error option"
    by simp
  have st: "Active \<noteq> []" by (simp add: Active_def)
  have bad: "samplePages ''s'' \<lparr>States = [Active], AfterTimestamp = 0\<rparr> ''bad'' =
               Inl (InvalidPaginationTokenError ''invalid pagination token'')
             \<and> IsInvalidPaginationTokenError (InvalidPaginationTokenError ''invalid pagination token'')"
    by (simp add: samplePages_def IsInvalidPaginationTokenError_def)
  have down: "samplePages ''s'' \<lparr>States = [Active], AfterTimestamp = 0\<rparr> ''down'' = Inl DriverError
             \<and> \<not> IsInvalidPaginationTokenError DriverError"
    by (simp add: samplePages_def IsInvalidPaginationTokenError_def)
  have page: "samplePages ''s'' \<lparr>States = [Active], AfterTimestamp = 0\<rparr> [] =
               Inr \<lparr>Data = [sampleDelegation], PaginationToken = ''next''\<rparr>"
    by (simp add: samplePages_def)
  have none: "samplePages ''t'' \<lparr>States = [], AfterTimestamp = 0\<rparr> [] =
               Inr \<lparr>Data = [], PaginationToken = []\<rparr>"
    by (simp add: samplePages_def)
  note t = DelegationsByStakerPk_outcomes [OF refl triple, where toIso = isoStub and dbFind = samplePages]
  from t [of "''s''" Active "''bad''"] bad st
  have a: "DelegationsByStakerPk isoStub samplePages ''s'' Active ''bad'' =
     ([], [], Some \<lparr>StatusCode = 400, Code = BadRequest,
                    Err = Wrapped (InvalidPaginationTokenError ''invalid pagination token'')\<rparr>)"
    by (simp add: prod_eq_iff)
  from t [of "''s''" Active "''down''"] down st
  have b: "DelegationsByStakerPk isoStub samplePages ''s'' Active ''down'' =
       ([], [], Some (NewInternalServiceError DriverError))"
    by (simp add: prod_eq_iff)
  from t [of "''s''" Active "[]"] page st
  have c: "DelegationsByStakerPk isoStub samplePages ''s'' Active [] =
       ([FromDelegationDocument isoStub sampleDelegation], ''next'', None)"
    by (simp add: prod_eq_iff)
  from t [of "''t''" "[]" "[]"] none
  have d: "DelegationsByStakerPk isoStub samplePages ''t'' [] [] = ([], [], None)"
    by (simp add: prod_eq_iff)
  from a b c d show ?thesis by simp
qed

text \<open>
  C9. \<open>GetDelegation\<close> returns the document the store finds, the error 404 NotFound
  exactly when the store reports not-found, and an internal-service error for any
  other error of the store. Once the hash is parsed from the request, the handler
  \<open>GetDelegationByTxHash\<close> returns the error of \<open>GetDelegation\<close> unchanged, and on success the
  public form of the document with the status 200; an error of the parser is returned
  as it is.
\<close>

theorem GetDelegation_outcomes:
  fixes dbFind :: "string \<Rightarrow> failure + DelegationDocument"
    and parseQuery :: "'request \<Rightarrow> string \<Rightarrow> Error + string"
  shows "(\<forall>d. dbFind txHash = Inr d \<longrightarrow> GetDelegation dbFind txHash = Inr d)
       \<and> (\<forall>err. dbFind txHash = Inl err \<and> IsNotFoundError err \<longrightarrow>
            GetDelegation dbFind txHash =
              Inl \<lparr>StatusCode = 404, Code = NotFound,
                   Err = Msg ''staking delegation not found, please retry''\<rparr>)
       \<and> (\<forall>err. dbFind txHash = Inl err \<and> \<not> IsNotFoundError err \<longrightarrow>
            GetDelegation dbFind txHash = Inl (NewInternalServiceError err) \<and>
            Code (NewInternalServiceError err) = InternalServiceError)
       \<and> ((\<exists>e. GetDelegation dbFind txHash = Inl e \<and> StatusCode e = 404 \<and> Code e = NotFound) \<longleftrightarrow>
          (\<exists>err. dbFind txHash = Inl err \<and> IsNotFoundError err))
       \<and> (\<forall>e. parseQuery request ''staking_tx_hash_hex'' = Inl e \<longrightarrow>
            GetDelegationByTxHash toIso parseQuery dbFind request = Inl e)
       \<and> (parseQuery request ''staking_tx_hash_hex'' = Inr txHash \<longrightarrow>
            (\<forall>e. GetDelegation dbFind txHash = Inl e \<longrightarrow>
               GetDelegationByTxHash toIso parseQuery dbFind request = Inl e) \<and>
            (\<forall>d. GetDelegation dbFind txHash = Inr d \<longrightarrow>
               GetDelegationByTxHash toIso parseQuery dbFind request =
                 Inr \<lparr>ResultData = FromDelegationDocument toIso d, Status = 200\<rparr> \<and>
               StakingTxHashHex_public (FromDelegationDocument toIso d) = StakingTxHashHex d))"
  by (cases "dbFind txHash")
     (auto simp: GetDelegation_def GetDelegationByTxHash_def NewErrorWithMsg_def
        NewInternalServiceError_def NewResult_def StatusNotFound_def StatusOK_def
        StatusInternalServerError_def FromDelegationDocument_def split: if_splits)

theorem GetDelegation_outcomes_witness:
  "GetDelegation sampleFind ''a'' = Inr sampleDelegation
   \<and> GetDelegation sampleFind ''b'' =
       Inl \<lparr>StatusCode = 404, Code = NotFound,
            Err = Msg ''staking delegation not found, please retry''\<rparr>
   \<and> GetDelegation sampleFind ''e'' = Inl (NewInternalServiceError DriverError)
   \<and> GetDelegationByTxHash isoStub sampleParse sampleFind ''a'' =
       Inr \<lparr>ResultData = FromDelegationDocument isoStub sampleDelegation, Status = 200\<rparr>
   \<and> GetDelegationByTxHash isoStub sampleParse sampleFind ''b'' =
       Inl \<lparr>StatusCode = 404, Code = NotFound,
            Err = Msg ''staking delegation not found, please retry''\<rparr>
   \<and> GetDelegationByTxHash isoStub sampleParse sampleFind [] =
       Inl (NewErrorWithMsg StatusBadRequest BadRequest ''missing tx hash'')"
proof -
  have fa: "sampleFind ''a'' = Inr sampleDelegation"
    and fb: "sampleFind ''b'' = Inl (NotFoundError ''b'' ''delegation not found'')
             \<and> IsNotFoundError (NotFoundError ''b'' ''delegation not found'')"
    and fe: "sampleFind ''e'' = Inl DriverError \<and> \<not> IsNotFoundError DriverError"
    by (simp_all add: sampleFind_def IsNotFoundError_def)
  have pa: "sampleParse ''a'' ''staking_tx_hash_hex'' = Inr ''a''"
    and pb: "sampleParse ''b'' ''staking_tx_hash_hex'' = Inr ''b''"
    and pn: "sampleParse [] ''staking_tx_hash_hex'' =
             Inl (NewErrorWithMsg StatusBadRequest BadRequest ''missing tx hash'')"
    by (simp_all add: sampleParse_def)
  note t = GetDelegation_outcomes [where dbFind = sampleFind and parseQuery = sampleParse
             and toIso = isoStub]
  note ta = t [where txHash = "''a''" and request = "''a''"]
  note tb = t [where txHash = "''b''" and request = "''b''"]
  note te = t [where txHash = "''e''" and request = "[]"]
  from ta fa have a: "GetDelegation sampleFind ''a'' = Inr sampleDelegation" by blast
  from tb fb have b: "GetDelegation sampleFind ''b'' =
       Inl \<lparr>StatusCode = 404, Code = NotFound,
            Err = Msg ''staking delegation not found, please retry''\<rparr>"
    by blast
  from te fe have e: "GetDelegation sampleFind ''e'' = Inl (NewInternalServiceError DriverError)"
    by blast
  from ta pa a have ha: "GetDelegationByTxHash isoStub sampleParse sampleFind ''a'' =
       Inr \<lparr>ResultData = FromDelegationDocument isoStub sampleDelegation, Status = 200\<rparr>"
    by blast
  from tb pb b have hb: "GetDelegationByTxHash isoStub sampleParse sampleFind ''b'' =
       Inl \<lparr>StatusCode = 404, Code = NotFound,
            Err = Msg ''staking delegation not found, please retry''\<rparr>"
    by blast
  from te pn have hn: "GetDelegationByTxHash isoStub sampleParse sampleFind [] =
       Inl (NewErrorWithMsg StatusBadRequest BadRequest ''missing tx hash'')"
    by blast
  from a b e ha hb hn show ?thesis by simp
qed

section \<open>Properties of the withdraw event\<close>

lemma states_distinct:
  "Active \<noteq> Unbonded" "Active \<noteq> Withdrawn" "Active \<noteq> UnbondingRequested"
  "Unbonded \<noteq> Withdrawn" "Unbonded \<noteq> UnbondingRequested" "UnbondingRequested \<noteq> Withdrawn"
  "Unbonded \<noteq> Active" "Withdrawn \<noteq> Active" "UnbondingRequested \<noteq> Active"
  "Withdrawn \<noteq> Unbonded" "UnbondingRequested \<noteq> Unbonded" "Withdrawn \<noteq> UnbondingRequested"
  by (simp_all add: Active_def Unbonded_def Withdrawn_def UnbondingRequested_def)

lemma Withdrawn_terminal: "State d = Withdrawn \<Longrightarrow> processEvent d e = (Ack, d)"
  by (cases e)
     (simp_all add: processWithdrawStakingEvent_def processExpiredStakingEvent_def states_distinct)

lemma withdrawals_terminal: "State d = Withdrawn \<Longrightarrow> withdrawals d events = 0"
  by (induction events) (simp_all add: Withdrawn_terminal)

lemma withdrawals_once: "withdrawals d events \<le> 1"
proof (induction events arbitrary: d)
  case Nil
  then show ?case by simp
next
  case (Cons e events)
  show ?case
  proof (cases "State d \<noteq> Withdrawn \<and> State (snd (processEvent d e)) = Withdrawn")
    case True
    then have "withdrawals (snd (processEvent d e)) events = 0"
      by (simp add: withdrawals_terminal)
    with True show ?thesis by simp
  next
    case False
    with Cons.IH [of "snd (processEvent d e)"] show ?thesis by auto
  qed
qed

lemma Withdraw_out_of_order_forever:
  "State d = Active \<or> State d = UnbondingRequested \<Longrightarrow> deliver n d [WithdrawStakingEvent] = None"
proof (induction n)
  case 0
  then show ?case by simp
next
  case (Suc n)
  then show ?case
    by (auto simp: processWithdrawStakingEvent_def states_distinct)
qed

text \<open>
  C3. Against the processor of the spec: a Withdraw event for a document that is Active
  or UnbondingRequested leaves the document as it is and asks for redelivery, however
  often it is redelivered. A Timelock-expired event that is accepted makes the document
  Unbonded, and a Withdraw event for an Unbonded document makes it Withdrawn and is
  acknowledged: a Withdraw event that arrives before the expiry is redelivered after
  it and then withdraws the document. A Withdraw event for a Withdrawn document leaves
  it as it is and is acknowledged, so the queue is empty afterwards. In every run of
  events the document moves into Withdrawn at most once, and once in the run of the
  tests.
\<close>

theorem Withdraw_tolerates_out_of_order:
  "(State d = Active \<or> State d = UnbondingRequested \<longrightarrow>
      processEvent d WithdrawStakingEvent = (Retry, d) \<and>
      deliver n d [WithdrawStakingEvent] = None)
   \<and> (State d = Active \<longrightarrow>
        processEvent d (ExpiredStakingEvent ActiveTxType) = (Ack, d\<lparr>State := Unbonded\<rparr>))
   \<and> (State d = UnbondingRequested \<longrightarrow>
        processEvent d (ExpiredStakingEvent UnbondingTxType) = (Ack, d\<lparr>State := Unbonded\<rparr>))
   \<and> (State d = Unbonded \<longrightarrow>
        processEvent d WithdrawStakingEvent = (Ack, d\<lparr>State := Withdrawn\<rparr>))
   \<and> (State d = Withdrawn \<longrightarrow> processEvent d WithdrawStakingEvent = (Ack, d))
   \<and> (State d = Active \<longrightarrow>
        deliver 3 d [WithdrawStakingEvent, ExpiredStakingEvent ActiveTxType] =
          Some (d\<lparr>State := Withdrawn\<rparr>))
   \<and> (State d = Active \<longrightarrow>
        deliver 3 d [ExpiredStakingEvent ActiveTxType, WithdrawStakingEvent, WithdrawStakingEvent] =
          Some (d\<lparr>State := Withdrawn\<rparr>))
   \<and> withdrawals d events \<le> 1
   \<and> (State d = Active \<longrightarrow>
        withdrawals d [WithdrawStakingEvent, ExpiredStakingEvent ActiveTxType,
                       WithdrawStakingEvent, WithdrawStakingEvent] = 1)"
proof (intro conjI impI)
  assume "State d = Active \<or> State d = UnbondingRequested"
  then show "processEvent d WithdrawStakingEvent = (Retry, d)"
    by (auto simp: processWithdrawStakingEvent_def states_distinct)
next
  assume "State d = Active \<or> State d = UnbondingRequested"
  then show "deliver n d [WithdrawStakingEvent] = None"
    by (rule Withdraw_out_of_order_forever)
next
  assume "State d = Active"
  then show "processEvent d (ExpiredStakingEvent ActiveTxType) = (Ack, d\<lparr>State := Unbonded\<rparr>)"
    by (simp add: processExpiredStakingEvent_def states_distinct)
next
  assume "State d = UnbondingRequested"
  then show "processEvent d (ExpiredStakingEvent UnbondingTxType) = (Ack, d\<lparr>State := Unbonded\<rparr>)"
    by (simp add: processExpiredStakingEvent_def states_distinct)
next
  assume "State d = Unbonded"
  then show "processEvent d WithdrawStakingEvent = (Ack, d\<lparr>State := Withdrawn\<rparr>)"
    by (simp add: processWithdrawStakingEvent_def)
next
  assume "State d = Withdrawn"
  then show "processEvent d WithdrawStakingEvent = (Ack, d)"
    by (rule Withdrawn_terminal)
next
  assume "State d = Active"
  then show "deliver 3 d [WithdrawStakingEvent, ExpiredStakingEvent ActiveTxType] =
          Some (d\<lparr>State := Withdrawn\<rparr>)"
    by (simp add: numeral_3_eq_3 processWithdrawStakingEvent_def processExpiredStakingEvent_def
          states_distinct)
next
  assume "State d = Active"
  then show "deliver 3 d [ExpiredStakingEvent ActiveTxType, WithdrawStakingEvent,
                          WithdrawStakingEvent] = Some (d\<lparr>State := Withdrawn\<rparr>)"
    by (simp add: numeral_3_eq_3 processWithdrawStakingEvent_def processExpiredStakingEvent_def
          states_distinct)
next
  show "withdrawals d events \<le> 1" by (rule withdrawals_once)
next
  assume "State d = Active"
  then show "withdrawals d [WithdrawStakingEvent, ExpiredStakingEvent ActiveTxType,
                       WithdrawStakingEvent, WithdrawStakingEvent] = 1"
    by (simp add: processWithdrawStakingEvent_def processExpiredStakingEvent_def states_distinct)
qed

theorem Withdraw_tolerates_out_of_order_witness:
  "processEvent sampleDelegation WithdrawStakingEvent = (Retry, sampleDelegation)
   \<and> deliver 7 sampleDelegation [WithdrawStakingEvent] = None
   \<and> processEvent sampleDelegation (ExpiredStakingEvent ActiveTxType) =
       (Ack, sampleDelegation\<lparr>State := Unbonded\<rparr>)
   \<and> processEvent (sampleDelegation\<lparr>State := UnbondingRequested\<rparr>)
        (ExpiredStakingEvent UnbondingTxType) = (Ack, sampleDelegation\<lparr>State := Unbonded\<rparr>)
   \<and> processEvent (sampleDelegation\<lparr>State := Unbonded\<rparr>) WithdrawStakingEvent =
       (Ack, sampleDelegation\<lparr>State := Withdrawn\<rparr>)
   \<and> processEvent (sampleDelegation\<lparr>State := Withdrawn\<rparr>) WithdrawStakingEvent =
       (Ack, sampleDelegation\<lparr>State := Withdrawn\<rparr>)
   \<and> deliver 3 sampleDelegation [WithdrawStakingEvent, ExpiredStakingEvent ActiveTxType] =
       Some (sampleDelegation\<lparr>State := Withdrawn\<rparr>)
   \<and> deliver 3 sampleDelegation
        [ExpiredStakingEvent ActiveTxType, WithdrawStakingEvent, WithdrawStakingEvent] =
       Some (sampleDelegation\<lparr>State := Withdrawn\<rparr>)
   \<and> withdrawals sampleDelegation
        [WithdrawStakingEvent, ExpiredStakingEvent ActiveTxType, WithdrawStakingEvent,
         WithdrawStakingEvent] = 1"
proof -
  have active: "State sampleDelegation = Active"
    by (simp add: sampleDelegation_def newActiveDelegation_def)
  have requested: "State (sampleDelegation\<lparr>State := UnbondingRequested\<rparr>) = UnbondingRequested"
    and unbonded: "State (sampleDelegation\<lparr>State := Unbonded\<rparr>) = Unbonded"
    and withdrawn: "State (sampleDelegation\<lparr>State := Withdrawn\<rparr>) = Withdrawn"
    by simp_all
  note ta = Withdraw_tolerates_out_of_order [where d = sampleDelegation and n = 7]
  note tr = Withdraw_tolerates_out_of_order
      [where d = "sampleDelegation\<lparr>State := UnbondingRequested\<rparr>"]
  note tu = Withdraw_tolerates_out_of_order [where d = "sampleDelegation\<lparr>State := Unbonded\<rparr>"]
  note tw = Withdraw_tolerates_out_of_order [where d = "sampleDelegation\<lparr>State := Withdrawn\<rparr>"]
  from ta active have a:
    "processEvent sampleDelegation WithdrawStakingEvent = (Retry, sampleDelegation)"
    "deliver 7 sampleDelegation [WithdrawStakingEvent] = None"
    "processEvent sampleDelegation (ExpiredStakingEvent ActiveTxType) =
       (Ack, sampleDelegation\<lparr>State := Unbonded\<rparr>)"
    "deliver 3 sampleDelegation [WithdrawStakingEvent, ExpiredStakingEvent ActiveTxType] =
       Some (sampleDelegation\<lparr>State := Withdrawn\<rparr>)"
    "deliver 3 sampleDelegation
        [ExpiredStakingEvent ActiveTxType, WithdrawStakingEvent, WithdrawStakingEvent] =
       Some (sampleDelegation\<lparr>State := Withdrawn\<rparr>)"
    "withdrawals sampleDelegation
        [WithdrawStakingEvent, ExpiredStakingEvent ActiveTxType, WithdrawStakingEvent,
         WithdrawStakingEvent] = 1"
    by blast+
  from tr requested have r: "processEvent (sampleDelegation\<lparr>State := UnbondingRequested\<rparr>)
        (ExpiredStakingEvent UnbondingTxType) = (Ack, sampleDelegation\<lparr>State := Unbonded\<rparr>)"
    by simp
  from tu unbonded have u: "processEvent (sampleDelegation\<lparr>State := Unbonded\<rparr>)
        WithdrawStakingEvent = (Ack, sampleDelegation\<lparr>State := Withdrawn\<rparr>)"
    by simp
  from tw withdrawn have w: "processEvent (sampleDelegation\<lparr>State := Withdrawn\<rparr>)
        WithdrawStakingEvent = (Ack, sampleDelegation\<lparr>State := Withdrawn\<rparr>)"
    by blast
  from a r u w show ?thesis by simp
qed

end
